theory Spec2Isabelle
  imports Complex_Main "HOL-Library.Signed_Division" "HOL-Library.Log_Nat"
begin

section \<open>Task Bench core: the graph model of \<open>src/core/core.cc\<close>\<close>

text \<open>
  Conventions of the embedding.
  \<^item> The C++ type \<open>long\<close> is \<open>int\<close>; no statement below concerns values near \<open>2^63\<close>,
    and the arithmetic of the graph model is read without wrap-around.
  \<^item> \<open>size_t\<close> byte counts are \<open>nat\<close>.
  \<^item> C++ \<open>/\<close> and \<open>%\<close> truncate towards zero: they are \<open>sdiv\<close> and \<open>smod\<close>.
    A division whose divisor is zero is undefined in C++; it is the error
    \<open>DivisionByZero\<close> here.
  \<^item> A failing \<open>assert\<close> is the error \<open>AssertionFailed\<close>, \<open>abort()\<close> after a
    message is \<open>ConfigurationError\<close>, a write or read past the end of a buffer is
    \<open>BufferOverrun\<close>, a read of memory that was never allocated is \<open>Unallocated\<close>,
    the branch of \<open>execute_point\<close> that prints the corruption message and then fails
    its assertion is \<open>CorruptedInput\<close>, and \<open>exit(0)\<close> after the help text is
    \<open>HelpShown\<close>.
  \<^item> \<open>double\<close> values are \<open>real\<close>; they are only compared (\<open>value < fraction_connected\<close>
    and the range tests of the parser).
  \<^item> \<open>radix\<close> is taken non-negative where a count is returned as \<open>size_t\<close>
    (\<open>return radix\<close>): the parser rejects a negative radix, and the statements below
    that depend on it say so.
  \<^item> \<open>random_uniform\<close> lives in \<open>core_random.h\<close>, which is not part of the sources at
    hand: it is the parameter \<open>ru\<close>, a function of the tuple of \<open>long\<close> it hashes.
\<close>

datatype error =
    AssertionFailed
  | DivisionByZero
  | BufferOverrun
  | ConfigurationError
  | Unallocated
  | CorruptedInput
  | HelpShown

datatype DependenceType =
    TRIVIAL
  | NO_COMM
  | STENCIL_1D
  | STENCIL_1D_PERIODIC
  | DOM
  | TREE
  | FFT
  | ALL_TO_ALL
  | NEAREST
  | SPREAD
  | RANDOM_NEAREST
  | RANDOM_SPREAD

datatype KernelType =
    EMPTY
  | BUSY_WAIT
  | MEMORY_BOUND
  | COMPUTE_DGEMM
  | MEMORY_DAXPY
  | COMPUTE_BOUND
  | COMPUTE_BOUND2
  | IO_BOUND
  | LOAD_IMBALANCE
  | COMPUTE_MEMORY
  | DIST_IMBALANCE

datatype DistType = UNIFORM | NORMAL | GAMMA | CAUCHY

text \<open>\<open>dist_t\<close> and \<open>kernel_t\<close>; the fields \<open>type\<close>, \<open>max\<close>, \<open>std\<close>, \<open>a\<close>, \<open>b\<close>, \<open>dist\<close> carry a prefix.\<close>

record dist_t =
  dist_type :: DistType
  dist_max :: int
  dist_std :: int
  dist_a :: int
  dist_b :: real

record kernel_t =
  kernel_type :: KernelType
  iterations :: int
  samples :: int
  imbalance :: real
  fraction_mem :: real
  kernel_dist :: dist_t

text \<open>
  \<open>task_graph_t\<close>. The table \<open>output_bytes_size\<close> is a \<open>size_t**\<close>: \<open>None\<close> is the
  pointer that was never set, and a cell that was allocated but not written is
  \<open>None\<close> too.
\<close>

record task_graph =
  graph_index :: int
  timesteps :: int
  max_width :: int
  dependence :: DependenceType
  radix :: int
  period :: int
  fraction_connected :: real
  kernel :: kernel_t
  output_bytes_per_task :: nat
  scratch_bytes_per_task :: nat
  nb_fields :: int
  output_bytes_size :: "(int \<Rightarrow> int \<Rightarrow> nat option) option"
  output_case :: int
  onormal_mu :: real
  onormal_std :: real
  ogamma_alpha :: real
  ogamma_beta :: real

type_synonym interval = "int \<times> int"

subsection \<open>Offsets, widths and dependence sets\<close>

definition needs_period :: "DependenceType \<Rightarrow> bool" where
  "needs_period dtype \<longleftrightarrow> dtype = SPREAD \<or> dtype = RANDOM_NEAREST"

definition offset_at_timestep :: "task_graph \<Rightarrow> int \<Rightarrow> int" where
  "offset_at_timestep g timestep =
     (if timestep < 0 then 0
      else case dependence g of
        TRIVIAL \<Rightarrow> 0
      | NO_COMM \<Rightarrow> 0
      | STENCIL_1D \<Rightarrow> 0
      | STENCIL_1D_PERIODIC \<Rightarrow> 0
      | DOM \<Rightarrow> max 0 (timestep + max_width g - timesteps g)
      | TREE \<Rightarrow> 0
      | FFT \<Rightarrow> 0
      | ALL_TO_ALL \<Rightarrow> 0
      | NEAREST \<Rightarrow> 0
      | SPREAD \<Rightarrow> 0
      | RANDOM_NEAREST \<Rightarrow> 0
      | RANDOM_SPREAD \<Rightarrow> 0)"

text \<open>\<open>1L << std::min(timestep, 62L)\<close> is \<open>2 ^ min timestep 62\<close>: the shift stays below \<open>2^63\<close>.\<close>

definition width_at_timestep :: "task_graph \<Rightarrow> int \<Rightarrow> int" where
  "width_at_timestep g timestep =
     (if timestep < 0 then 0
      else case dependence g of
        TRIVIAL \<Rightarrow> max_width g
      | NO_COMM \<Rightarrow> max_width g
      | STENCIL_1D \<Rightarrow> max_width g
      | STENCIL_1D_PERIODIC \<Rightarrow> max_width g
      | DOM \<Rightarrow> min (max_width g) (min (timestep + 1) (timesteps g - timestep))
      | TREE \<Rightarrow> min (max_width g) (2 ^ nat (min timestep 62))
      | FFT \<Rightarrow> max_width g
      | ALL_TO_ALL \<Rightarrow> max_width g
      | NEAREST \<Rightarrow> max_width g
      | SPREAD \<Rightarrow> max_width g
      | RANDOM_NEAREST \<Rightarrow> max_width g
      | RANDOM_SPREAD \<Rightarrow> max_width g)"

text \<open>
  \<open>(long)ceil(log2(max_width))\<close>: the least \<open>k\<close> with \<open>max_width \<le> 2^k\<close>, which is
  \<open>ceillog2\<close> of the library (\<open>nat \<lceil>log 2 n\<rceil>\<close> for \<open>n > 0\<close>). For \<open>max_width \<le> 0\<close> the
  C++ value is not defined (the logarithm is infinite or not a number); the model
  gives 0 there.
\<close>

definition max_dependence_sets :: "task_graph \<Rightarrow> int" where
  "max_dependence_sets g =
     (case dependence g of
        TRIVIAL \<Rightarrow> 1
      | NO_COMM \<Rightarrow> 1
      | STENCIL_1D \<Rightarrow> 1
      | STENCIL_1D_PERIODIC \<Rightarrow> 1
      | DOM \<Rightarrow> 1
      | TREE \<Rightarrow> 1
      | FFT \<Rightarrow> int (ceillog2 (nat (max_width g)))
      | ALL_TO_ALL \<Rightarrow> 1
      | NEAREST \<Rightarrow> 1
      | SPREAD \<Rightarrow> period g
      | RANDOM_NEAREST \<Rightarrow> period g
      | RANDOM_SPREAD \<Rightarrow> period g)"

definition c_mod :: "int \<Rightarrow> int \<Rightarrow> error + int" where
  "c_mod a b = (if b = 0 then Inl DivisionByZero else Inr (a smod b))"

definition c_div :: "int \<Rightarrow> int \<Rightarrow> error + int" where
  "c_div a b = (if b = 0 then Inl DivisionByZero else Inr (a sdiv b))"

definition dependence_set_at_timestep :: "task_graph \<Rightarrow> int \<Rightarrow> error + int" where
  "dependence_set_at_timestep g timestep =
     (case dependence g of
        TRIVIAL \<Rightarrow> Inr 0
      | NO_COMM \<Rightarrow> Inr 0
      | STENCIL_1D \<Rightarrow> Inr 0
      | STENCIL_1D_PERIODIC \<Rightarrow> Inr 0
      | DOM \<Rightarrow> Inr 0
      | TREE \<Rightarrow> Inr 0
      | FFT \<Rightarrow> c_mod (timestep + max_dependence_sets g - 1) (max_dependence_sets g)
      | ALL_TO_ALL \<Rightarrow> Inr 0
      | NEAREST \<Rightarrow> Inr 0
      | SPREAD \<Rightarrow> c_mod timestep (max_dependence_sets g)
      | RANDOM_NEAREST \<Rightarrow> c_mod timestep (max_dependence_sets g)
      | RANDOM_SPREAD \<Rightarrow> c_mod timestep (max_dependence_sets g))"

subsection \<open>Dependencies and reverse dependencies\<close>

text \<open>
  The sweep of the \<open>RANDOM_NEAREST\<close> case, shared in shape by both directions: the
  loop body over the candidates \<open>i\<close>, with the loop state \<open>run_start\<close> and the
  intervals written so far (\<open>deps[idx++] = ...\<close> appends).
\<close>

fun random_nearest_sweep ::
  "(int \<Rightarrow> bool) \<Rightarrow> int list \<Rightarrow> int \<Rightarrow> interval list \<Rightarrow> int \<times> interval list" where
  "random_nearest_sweep incl [] run_start deps = (run_start, deps)"
| "random_nearest_sweep incl (i # rest) run_start deps =
     (if incl i
      then random_nearest_sweep incl rest (if run_start < 0 then i else run_start) deps
      else random_nearest_sweep incl rest (- 1)
             (if run_start \<ge> 0 then deps @ [(run_start, i - 1)] else deps))"

text \<open>
  The whole loop from \<open>first\<close> to \<open>last_i\<close> and the flush after it; after the loop
  \<open>i\<close> is \<open>last_i + 1\<close> when the loop ran, else still \<open>first\<close>.
\<close>

definition random_nearest_runs :: "(int \<Rightarrow> bool) \<Rightarrow> int \<Rightarrow> int \<Rightarrow> interval list" where
  "random_nearest_runs incl first last_i =
     (case random_nearest_sweep incl [first..last_i] (- 1) [] of
        (run_start, deps) \<Rightarrow>
          let i = (if first \<le> last_i then last_i + 1 else first)
          in if run_start \<ge> 0 then deps @ [(run_start, i - 1)] else deps)"

text \<open>
  The inclusion test of the \<open>RANDOM_NEAREST\<close> loops: \<open>hash_value\<close> is the tuple handed
  to \<open>random_uniform\<close>, \<open>include\<close> the decision for candidate \<open>i\<close> of \<open>point\<close>, in
  \<open>dependencies\<close> (forward) and in \<open>reverse_dependencies\<close> (reverse).
\<close>

definition forward_hash_value :: "task_graph \<Rightarrow> int \<Rightarrow> int \<Rightarrow> int \<Rightarrow> int list" where
  "forward_hash_value g dset point i = [graph_index g, radix g, dset, i, point]"

definition reverse_hash_value :: "task_graph \<Rightarrow> int \<Rightarrow> int \<Rightarrow> int \<Rightarrow> int list" where
  "reverse_hash_value g dset point i = [graph_index g, radix g, dset, point, i]"

definition forward_include ::
  "(int list \<Rightarrow> real) \<Rightarrow> task_graph \<Rightarrow> int \<Rightarrow> int \<Rightarrow> int \<Rightarrow> bool" where
  "forward_include ru g dset point i \<longleftrightarrow>
     ru (forward_hash_value g dset point i) < fraction_connected g \<or> (radix g > 0 \<and> i = point)"

definition reverse_include ::
  "(int list \<Rightarrow> real) \<Rightarrow> task_graph \<Rightarrow> int \<Rightarrow> int \<Rightarrow> int \<Rightarrow> bool" where
  "reverse_include ru g dset point i \<longleftrightarrow>
     ru (reverse_hash_value g dset point i) < fraction_connected g \<or> (radix g > 0 \<and> i = point)"

text \<open>
  \<open>size_t TaskGraph::dependencies(long dset, long point, std::pair<long, long> *deps)\<close>:
  the result is the list of intervals written to \<open>deps\<close>, in order; its length is the
  returned count. Whether the caller's buffer is large enough is the caller's matter
  (see \<open>dependencies_vec\<close> and \<open>validate_input\<close>). \<open>1 << dset\<close> is \<open>2 ^ dset\<close>: the
  shift is one of \<open>int\<close>, defined for \<open>0 \<le> dset < 31\<close>, which holds for every dependence
  set of an FFT graph of up to \<open>2 ^ 31\<close> points.
\<close>

definition dependencies ::
  "(int list \<Rightarrow> real) \<Rightarrow> task_graph \<Rightarrow> int \<Rightarrow> int \<Rightarrow> error + interval list" where
  "dependencies ru g dset point =
     (case dependence g of
        TRIVIAL \<Rightarrow> Inr []
      | NO_COMM \<Rightarrow> Inr [(point, point)]
      | STENCIL_1D \<Rightarrow> Inr [(max 0 (point - 1), min (point + 1) (max_width g - 1))]
      | STENCIL_1D_PERIODIC \<Rightarrow>
          Inr ([(max 0 (point - 1), min (point + 1) (max_width g - 1))]
               @ (if point - 1 < 0 then [(max_width g - 1, max_width g - 1)] else [])
               @ (if point + 1 \<ge> max_width g then [(0, 0)] else []))
      | DOM \<Rightarrow> Inr [(max 0 (point - 1), point)]
      | TREE \<Rightarrow> (let parent = point sdiv 2 in Inr [(parent, parent)])
      | FFT \<Rightarrow>
          (let d1 = point - 2 ^ nat dset; d2 = point + 2 ^ nat dset
           in Inr ((if d1 \<ge> 0 then [(d1, d1)] else [])
                   @ [(point, point)]
                   @ (if d2 < max_width g then [(d2, d2)] else [])))
      | ALL_TO_ALL \<Rightarrow> Inr [(0, max_width g - 1)]
      | NEAREST \<Rightarrow>
          (if radix g > 0
           then Inr [(max 0 (point - radix g sdiv 2),
                      min (point + (radix g - 1) sdiv 2) (max_width g - 1))]
           else Inr [])
      | SPREAD \<Rightarrow>
          (if radix g > 0 \<and> max_width g = 0 then Inl DivisionByZero
           else Inr (map (\<lambda>i. let dep = (point + (i * max_width g) sdiv radix g
                                           + (if i > 0 then dset else 0)) smod max_width g
                               in (dep, dep))
                         [0..radix g - 1]))
      | RANDOM_NEAREST \<Rightarrow>
          Inr (random_nearest_runs (forward_include ru g dset point)
                 (max 0 (point - radix g sdiv 2))
                 (min (point + (radix g - 1) sdiv 2) (max_width g - 1)))
      | RANDOM_SPREAD \<Rightarrow> Inl AssertionFailed)"

definition num_dependencies :: "task_graph \<Rightarrow> int \<Rightarrow> int \<Rightarrow> error + nat" where
  "num_dependencies g dset point =
     (case dependence g of
        TRIVIAL \<Rightarrow> Inr 0
      | NO_COMM \<Rightarrow> Inr 1
      | STENCIL_1D \<Rightarrow> Inr 1
      | STENCIL_1D_PERIODIC \<Rightarrow> Inr (if max_width g > 1 then 2 else 3)
      | DOM \<Rightarrow> Inr 1
      | TREE \<Rightarrow> Inr 1
      | FFT \<Rightarrow> Inr 3
      | ALL_TO_ALL \<Rightarrow> Inr 1
      | NEAREST \<Rightarrow> Inr (if radix g > 0 then 1 else 0)
      | SPREAD \<Rightarrow> Inr (nat (radix g))
      | RANDOM_NEAREST \<Rightarrow> Inr (nat (radix g))
      | RANDOM_SPREAD \<Rightarrow> Inl AssertionFailed)"

definition reverse_dependencies ::
  "(int list \<Rightarrow> real) \<Rightarrow> task_graph \<Rightarrow> int \<Rightarrow> int \<Rightarrow> error + interval list" where
  "reverse_dependencies ru g dset point =
     (case dependence g of
        TRIVIAL \<Rightarrow> Inr []
      | NO_COMM \<Rightarrow> Inr [(point, point)]
      | STENCIL_1D \<Rightarrow> Inr [(max 0 (point - 1), min (point + 1) (max_width g - 1))]
      | STENCIL_1D_PERIODIC \<Rightarrow>
          Inr ([(max 0 (point - 1), min (point + 1) (max_width g - 1))]
               @ (if point - 1 < 0 then [(max_width g - 1, max_width g - 1)] else [])
               @ (if point + 1 \<ge> max_width g then [(0, 0)] else []))
      | DOM \<Rightarrow> Inr [(point, min (max_width g - 1) (point + 1))]
      | TREE \<Rightarrow>
          (let child1 = point * 2; child2 = point * 2 + 1
           in if child1 < max_width g \<and> child2 < max_width g then Inr [(child1, child2)]
              else if child1 < max_width g then Inr [(child1, child1)]
              else Inr [])
      | FFT \<Rightarrow>
          (let d1 = point - 2 ^ nat dset; d2 = point + 2 ^ nat dset
           in Inr ((if d1 \<ge> 0 then [(d1, d1)] else [])
                   @ [(point, point)]
                   @ (if d2 < max_width g then [(d2, d2)] else [])))
      | ALL_TO_ALL \<Rightarrow> Inr [(0, max_width g - 1)]
      | NEAREST \<Rightarrow>
          (if radix g > 0
           then Inr [(max 0 (point - (radix g - 1) sdiv 2),
                      min (point + radix g sdiv 2) (max_width g - 1))]
           else Inr [])
      | SPREAD \<Rightarrow>
          (if radix g > 0 \<and> max_width g = 0 then Inl DivisionByZero
           else Inr (map (\<lambda>i. let dep = (point - (i * max_width g) sdiv radix g
                                           - (if i > 0 then dset else 0)) smod max_width g;
                                   dep = (if dep < 0 then dep + max_width g else dep)
                               in (dep, dep))
                         [0..radix g - 1]))
      | RANDOM_NEAREST \<Rightarrow>
          Inr (random_nearest_runs (reverse_include ru g dset point)
                 (max 0 (point - (radix g - 1) sdiv 2))
                 (min (point + radix g sdiv 2) (max_width g - 1)))
      | RANDOM_SPREAD \<Rightarrow> Inl AssertionFailed)"

definition num_reverse_dependencies :: "task_graph \<Rightarrow> int \<Rightarrow> int \<Rightarrow> error + nat" where
  "num_reverse_dependencies g dset point =
     (case dependence g of
        TRIVIAL \<Rightarrow> Inr 0
      | NO_COMM \<Rightarrow> Inr 1
      | STENCIL_1D \<Rightarrow> Inr 1
      | STENCIL_1D_PERIODIC \<Rightarrow> Inr (if max_width g > 1 then 2 else 3)
      | DOM \<Rightarrow> Inr 1
      | TREE \<Rightarrow> Inr 1
      | FFT \<Rightarrow> Inr 3
      | ALL_TO_ALL \<Rightarrow> Inr 1
      | NEAREST \<Rightarrow> Inr (if radix g > 0 then 1 else 0)
      | SPREAD \<Rightarrow> Inr (nat (radix g))
      | RANDOM_NEAREST \<Rightarrow> Inr (nat (radix g))
      | RANDOM_SPREAD \<Rightarrow> Inl AssertionFailed)"

text \<open>
  \<open>std::vector<std::pair<long, long> > TaskGraph::dependencies(long dset, long point)\<close>
  and its reverse twin: a vector of \<open>num_dependencies\<close> entries is handed to the
  function above. Writing more intervals than that leaves the vector's storage, and
  \<open>assert(actual_count <= count)\<close> fails afterwards.
\<close>

definition dependencies_vec ::
  "(int list \<Rightarrow> real) \<Rightarrow> task_graph \<Rightarrow> int \<Rightarrow> int \<Rightarrow> error + interval list" where
  "dependencies_vec ru g dset point =
     (case num_dependencies g dset point of
        Inl e \<Rightarrow> Inl e
      | Inr count \<Rightarrow>
          (case dependencies ru g dset point of
             Inl e \<Rightarrow> Inl e
           | Inr deps \<Rightarrow> if length deps > count then Inl BufferOverrun else Inr deps))"

definition reverse_dependencies_vec ::
  "(int list \<Rightarrow> real) \<Rightarrow> task_graph \<Rightarrow> int \<Rightarrow> int \<Rightarrow> error + interval list" where
  "reverse_dependencies_vec ru g dset point =
     (case num_reverse_dependencies g dset point of
        Inl e \<Rightarrow> Inl e
      | Inr count \<Rightarrow>
          (case reverse_dependencies ru g dset point of
             Inl e \<Rightarrow> Inl e
           | Inr deps \<Rightarrow> if length deps > count then Inl BufferOverrun else Inr deps))"

subsection \<open>\<open>App::check\<close>\<close>

text \<open>
  \<open>check_graph\<close> is the body of the loop \<open>for (auto g : graphs)\<close>, in four parts: the period tests
  (with the unconditional division by \<open>radix\<close>), the loop over the timesteps, and for
  every dependence set the materialisation of the dependencies
  (\<open>std::map<long, std::set<long> >\<close>, here a function to sets; \<open>operator[]\<close> on a
  missing key gives the empty set) followed by the mirror test of the reverse
  dependencies.
\<close>

definition check_period :: "task_graph \<Rightarrow> error + unit" where
  "check_period g =
     (if needs_period (dependence g) \<and> period g = 0 then Inl ConfigurationError
      else if \<not> needs_period (dependence g) \<and> period g \<noteq> 0 then Inl ConfigurationError
      else case c_div (max_width g + radix g - 1) (radix g) of
             Inl e \<Rightarrow> Inl e
           | Inr spread \<Rightarrow>
               if dependence g = SPREAD \<and> period g > spread then Inl ConfigurationError
               else Inr ())"

fun check_timesteps :: "task_graph \<Rightarrow> int list \<Rightarrow> error + unit" where
  "check_timesteps g [] = Inr ()"
| "check_timesteps g (t # rest) =
     (let offset = offset_at_timestep g t; width = width_at_timestep g t
      in if \<not> offset \<ge> 0 then Inl AssertionFailed
         else if \<not> width \<ge> 0 then Inl AssertionFailed
         else if \<not> offset + width \<le> max_width g then Inl AssertionFailed
         else case dependence_set_at_timestep g t of
                Inl e \<Rightarrow> Inl e
              | Inr dset \<Rightarrow>
                  if \<not> (dset \<ge> 0 \<and> dset \<le> max_dependence_sets g) then Inl AssertionFailed
                  else check_timesteps g rest)"

fun materialize_span ::
  "int \<Rightarrow> int list \<Rightarrow> (int \<Rightarrow> int set) \<Rightarrow> error + (int \<Rightarrow> int set)" where
  "materialize_span point [] m = Inr m"
| "materialize_span point (dp # rest) m =
     (if dp \<in> m point then Inl AssertionFailed
      else materialize_span point rest (m(point := insert dp (m point))))"

fun materialize_deps ::
  "int \<Rightarrow> interval list \<Rightarrow> (int \<Rightarrow> int set) \<Rightarrow> error + (int \<Rightarrow> int set)" where
  "materialize_deps point [] m = Inr m"
| "materialize_deps point (dep # rest) m =
     (case materialize_span point [fst dep..snd dep] m of
        Inl e \<Rightarrow> Inl e
      | Inr m' \<Rightarrow> materialize_deps point rest m')"

fun materialize_points ::
  "(int list \<Rightarrow> real) \<Rightarrow> task_graph \<Rightarrow> int \<Rightarrow> int list \<Rightarrow> (int \<Rightarrow> int set)
     \<Rightarrow> error + (int \<Rightarrow> int set)" where
  "materialize_points ru g dset [] m = Inr m"
| "materialize_points ru g dset (point # rest) m =
     (case dependencies_vec ru g dset point of
        Inl e \<Rightarrow> Inl e
      | Inr deps \<Rightarrow>
          (case materialize_deps point deps m of
             Inl e \<Rightarrow> Inl e
           | Inr m' \<Rightarrow> materialize_points ru g dset rest m'))"

fun mirror_span :: "int \<Rightarrow> int list \<Rightarrow> (int \<Rightarrow> int set) \<Rightarrow> error + unit" where
  "mirror_span point [] m = Inr ()"
| "mirror_span point (rdp # rest) m =
     (if point \<notin> m rdp then Inl AssertionFailed else mirror_span point rest m)"

fun mirror_deps :: "int \<Rightarrow> interval list \<Rightarrow> (int \<Rightarrow> int set) \<Rightarrow> error + unit" where
  "mirror_deps point [] m = Inr ()"
| "mirror_deps point (rdep # rest) m =
     (case mirror_span point [fst rdep..snd rdep] m of
        Inl e \<Rightarrow> Inl e
      | Inr _ \<Rightarrow> mirror_deps point rest m)"

fun mirror_points ::
  "(int list \<Rightarrow> real) \<Rightarrow> task_graph \<Rightarrow> int \<Rightarrow> int list \<Rightarrow> (int \<Rightarrow> int set) \<Rightarrow> error + unit" where
  "mirror_points ru g dset [] m = Inr ()"
| "mirror_points ru g dset (point # rest) m =
     (case reverse_dependencies_vec ru g dset point of
        Inl e \<Rightarrow> Inl e
      | Inr rdeps \<Rightarrow>
          (case mirror_deps point rdeps m of
             Inl e \<Rightarrow> Inl e
           | Inr _ \<Rightarrow> mirror_points ru g dset rest m))"

fun check_dsets :: "(int list \<Rightarrow> real) \<Rightarrow> task_graph \<Rightarrow> int list \<Rightarrow> error + unit" where
  "check_dsets ru g [] = Inr ()"
| "check_dsets ru g (dset # rest) =
     (case materialize_points ru g dset [0..max_width g - 1] (\<lambda>_. {}) of
        Inl e \<Rightarrow> Inl e
      | Inr materialized_deps \<Rightarrow>
          (case mirror_points ru g dset [0..max_width g - 1] materialized_deps of
             Inl e \<Rightarrow> Inl e
           | Inr _ \<Rightarrow> check_dsets ru g rest))"

definition check_graph :: "(int list \<Rightarrow> real) \<Rightarrow> task_graph \<Rightarrow> error + unit" where
  "check_graph ru g =
     (case check_period g of
        Inl e \<Rightarrow> Inl e
      | Inr _ \<Rightarrow>
          (case check_timesteps g [0..timesteps g - 1] of
             Inl e \<Rightarrow> Inl e
           | Inr _ \<Rightarrow> check_dsets ru g [0..max_dependence_sets g - 1]))"

fun App_check :: "(int list \<Rightarrow> real) \<Rightarrow> task_graph list \<Rightarrow> error + unit" where
  "App_check ru [] = Inr ()"
| "App_check ru (g # rest) =
     (case check_graph ru g of Inl e \<Rightarrow> Inl e | Inr _ \<Rightarrow> App_check ru rest)"

text \<open>
  A valid configuration: the ranges the parser enforces on the fields of a graph
  (\<open>-steps\<close> and \<open>-width\<close> positive, \<open>-radix\<close> not negative) and a normal return of
  \<open>App::check\<close> on it.
\<close>

definition valid_graph :: "(int list \<Rightarrow> real) \<Rightarrow> task_graph \<Rightarrow> bool" where
  "valid_graph ru g \<longleftrightarrow>
     timesteps g > 0 \<and> max_width g > 0 \<and> radix g \<ge> 0 \<and> check_graph ru g = Inr ()"

subsection \<open>\<open>TaskGraph::execute_point\<close>\<close>

text \<open>
  A buffer of the backend is the sequence of 16-byte records
  (\<open>std::pair<long, long>\<close>) that lies at its address; \<open>input_bytes\<close> is the size the
  caller announces for it. Reading a record past the end of the memory is
  \<open>BufferOverrun\<close>. The scratch buffer is the sequence of its 8-byte words, or
  \<open>None\<close> for a null pointer. The kernels themselves (\<open>core_kernel.h\<close>) return nothing
  and are not part of the sources at hand: \<open>Kernel_execute\<close> keeps the assertions
  of \<open>Kernel::execute\<close>. The \<open>DEBUG_CORE\<close> blocks are compiled out.
\<close>

record input_buffer =
  input_bytes :: nat
  input_ptr :: "(int \<times> int) list"

definition MAGIC_VALUE :: nat where
  "MAGIC_VALUE = 0x5C4A7C8B"

definition Kernel_execute ::
  "kernel_t \<Rightarrow> int \<Rightarrow> int \<Rightarrow> nat list option \<Rightarrow> nat \<Rightarrow> error + unit" where
  "Kernel_execute k timestep point scratch_ptr scratch_bytes =
     (let needs_scratch =
            (if scratch_ptr = None then Inl AssertionFailed
             else if \<not> scratch_bytes > 0 then Inl AssertionFailed
             else Inr ());
          needs_task =
            (if \<not> (timestep \<ge> 0 \<and> point \<ge> 0) then Inl AssertionFailed else Inr ())
      in case kernel_type k of
           EMPTY \<Rightarrow> Inr ()
         | BUSY_WAIT \<Rightarrow> Inr ()
         | MEMORY_BOUND \<Rightarrow> needs_scratch
         | COMPUTE_DGEMM \<Rightarrow> needs_scratch
         | MEMORY_DAXPY \<Rightarrow> needs_scratch
         | COMPUTE_BOUND \<Rightarrow> Inr ()
         | COMPUTE_BOUND2 \<Rightarrow> Inr ()
         | IO_BOUND \<Rightarrow> Inr ()
         | LOAD_IMBALANCE \<Rightarrow> needs_task
         | DIST_IMBALANCE \<Rightarrow> needs_task
         | COMPUTE_MEMORY \<Rightarrow> needs_scratch)"

text \<open>The loop over the positions \<open>i\<close> of one input buffer.\<close>

fun validate_slots :: "int \<Rightarrow> int \<Rightarrow> (int \<times> int) list \<Rightarrow> nat list \<Rightarrow> error + unit" where
  "validate_slots timestep dep input [] = Inr ()"
| "validate_slots timestep dep input (i # rest) =
     (if i \<ge> length input then Inl BufferOverrun
      else if fst (input ! i) \<noteq> timestep - 1 \<or> snd (input ! i) \<noteq> dep then Inl CorruptedInput
      else validate_slots timestep dep input rest)"

text \<open>The loop over the points \<open>dep\<close> of one interval; \<open>idx\<close> counts the inputs used.\<close>

fun validate_span ::
  "int \<Rightarrow> int \<Rightarrow> int \<Rightarrow> input_buffer list \<Rightarrow> int list \<Rightarrow> nat \<Rightarrow> error + nat" where
  "validate_span timestep last_offset last_width inputs [] idx = Inr idx"
| "validate_span timestep last_offset last_width inputs (dep # rest) idx =
     (if last_offset \<le> dep \<and> dep < last_offset + last_width
      then if \<not> idx < length inputs then Inl AssertionFailed
           else if \<not> input_bytes (inputs ! idx) \<ge> 16 then Inl AssertionFailed
           else case validate_slots timestep dep (input_ptr (inputs ! idx))
                       [0..<input_bytes (inputs ! idx) div 16] of
                  Inl e \<Rightarrow> Inl e
                | Inr _ \<Rightarrow>
                    validate_span timestep last_offset last_width inputs rest (idx + 1)
      else validate_span timestep last_offset last_width inputs rest idx)"

text \<open>The loop over the intervals \<open>deps[span]\<close>.\<close>

fun validate_spans ::
  "int \<Rightarrow> int \<Rightarrow> int \<Rightarrow> input_buffer list \<Rightarrow> interval list \<Rightarrow> nat \<Rightarrow> error + nat" where
  "validate_spans timestep last_offset last_width inputs [] idx = Inr idx"
| "validate_spans timestep last_offset last_width inputs (sp # rest) idx =
     (case validate_span timestep last_offset last_width inputs [fst sp..snd sp] idx of
        Inl e \<Rightarrow> Inl e
      | Inr idx' \<Rightarrow> validate_spans timestep last_offset last_width inputs rest idx')"

text \<open>
  The block \<open>// Validate input\<close>. The intervals go to a buffer of \<open>max_deps\<close> entries
  taken with \<open>alloca\<close>; more intervals than that overrun it.
\<close>

definition validate_input ::
  "(int list \<Rightarrow> real) \<Rightarrow> task_graph \<Rightarrow> int \<Rightarrow> int \<Rightarrow> input_buffer list \<Rightarrow> error + unit" where
  "validate_input ru g timestep point inputs =
     (let last_offset = offset_at_timestep g (timestep - 1);
          last_width = width_at_timestep g (timestep - 1)
      in case dependence_set_at_timestep g timestep of
           Inl e \<Rightarrow> Inl e
         | Inr dset \<Rightarrow>
             (case num_dependencies g dset point of
                Inl e \<Rightarrow> Inl e
              | Inr max_deps \<Rightarrow>
                  (case dependencies ru g dset point of
                     Inl e \<Rightarrow> Inl e
                   | Inr deps \<Rightarrow>
                       if length deps > max_deps then Inl BufferOverrun
                       else (case validate_spans timestep last_offset last_width inputs deps 0 of
                               Inl e \<Rightarrow> Inl e
                             | Inr _ \<Rightarrow> Inr ()))))"

text \<open>The loop \<open>// Generate output\<close>: one record per 16-byte slot.\<close>

definition generate_output :: "int \<Rightarrow> int \<Rightarrow> nat \<Rightarrow> (int \<times> int) list" where
  "generate_output timestep point output_bytes =
     map (\<lambda>i. (timestep, point)) [0..<output_bytes div 16]"

text \<open>The block \<open>// Validate scratch\<close>.\<close>

definition validate_scratch :: "task_graph \<Rightarrow> nat list option \<Rightarrow> nat \<Rightarrow> error + unit" where
  "validate_scratch g scratch_ptr scratch_bytes =
     (if scratch_bytes \<noteq> scratch_bytes_per_task g then Inl AssertionFailed
      else if scratch_bytes > 0
      then (case scratch_ptr of
              None \<Rightarrow> Inl Unallocated
            | Some [] \<Rightarrow> Inl BufferOverrun
            | Some (w # _) \<Rightarrow> if w \<noteq> MAGIC_VALUE then Inl AssertionFailed else Inr ())
      else Inr ())"

text \<open>The result of \<open>execute_point\<close> is the content of the output buffer.\<close>

definition execute_point ::
  "(int list \<Rightarrow> real) \<Rightarrow> task_graph \<Rightarrow> int \<Rightarrow> int \<Rightarrow> nat \<Rightarrow> input_buffer list
     \<Rightarrow> nat list option \<Rightarrow> nat \<Rightarrow> error + (int \<times> int) list" where
  "execute_point ru g timestep point output_bytes inputs scratch_ptr scratch_bytes =
     (if \<not> (0 \<le> timestep \<and> timestep < timesteps g) then Inl AssertionFailed
      else let offset = offset_at_timestep g timestep;
               width = width_at_timestep g timestep
           in if \<not> (offset \<le> point \<and> point < offset + width) then Inl AssertionFailed
              else (case validate_input ru g timestep point inputs of
                      Inl e \<Rightarrow> Inl e
                    | Inr _ \<Rightarrow>
                        if \<not> output_bytes \<ge> 16 then Inl AssertionFailed
                        else let output = generate_output timestep point output_bytes
                             in (case validate_scratch g scratch_ptr scratch_bytes of
                                   Inl e \<Rightarrow> Inl e
                                 | Inr _ \<Rightarrow>
                                     (case Kernel_execute (kernel g) timestep point
                                             scratch_ptr scratch_bytes of
                                        Inl e \<Rightarrow> Inl e
                                      | Inr _ \<Rightarrow> Inr output))))"

text \<open>
  The dependencies of \<open>point\<close> at \<open>timestep\<close> that lie in the previous row, in the
  order in which the validation walks them: the inputs \<open>execute_point\<close> expects.
\<close>

definition required_dependencies ::
  "task_graph \<Rightarrow> int \<Rightarrow> interval list \<Rightarrow> int list" where
  "required_dependencies g timestep deps =
     concat (map (\<lambda>sp. filter (\<lambda>dep. offset_at_timestep g (timestep - 1) \<le> dep
                                      \<and> dep < offset_at_timestep g (timestep - 1)
                                              + width_at_timestep g (timestep - 1))
                                [fst sp..snd sp]) deps)"

subsection \<open>\<open>App::report_timing\<close>: the counts\<close>











definition dset_of :: "task_graph \<Rightarrow> int \<Rightarrow> int" where
  "dset_of g t = (case dependence_set_at_timestep g t of Inl _ \<Rightarrow> 0 | Inr dset \<Rightarrow> dset)"

definition deps_of :: "(int list \<Rightarrow> real) \<Rightarrow> task_graph \<Rightarrow> int \<Rightarrow> int \<Rightarrow> interval list" where
  "deps_of ru g dset p = (case dependencies_vec ru g dset p of Inl _ \<Rightarrow> [] | Inr deps \<Rightarrow> deps)"




subsection \<open>The output-size planner and \<open>App::App\<close>\<close>

definition default_graph :: "int \<Rightarrow> task_graph" where
  "default_graph index =
     \<lparr>graph_index = index,
      timesteps = 4,
      max_width = 4,
      dependence = TRIVIAL,
      radix = 3,
      period = - 1,
      fraction_connected = 0.25,
      kernel = \<lparr>kernel_type = EMPTY, iterations = 0, samples = 16, imbalance = 0,
                fraction_mem = 0,
                kernel_dist = \<lparr>dist_type = UNIFORM, dist_max = 0, dist_std = 0,
                               dist_a = 0, dist_b = 0\<rparr>\<rparr>,
      output_bytes_per_task = 16,
      scratch_bytes_per_task = 0,
      nb_fields = 0,
      output_bytes_size = None,
      output_case = 0,
      onormal_mu = 2,
      onormal_std = 2,
      ogamma_alpha = 2,
      ogamma_beta = 2\<rparr>"

text \<open>
  \<open>allocate_bytes\<close>. The table is updated cell by cell. The bucket counts \<open>p[i]\<close> of the
  cases 1 to 3 come from the random number generators of the C++ library; they are
  the parameter \<open>hist\<close> (graph, timestep, bucket). The conversions of the C++ between
  \<open>int\<close> (32 bits) and \<open>size_t\<close> (64 bits, unsigned) are written out; products of
  \<open>int\<close> are read without overflow. A cell is read only after it was written; the
  value of a cell never written is read as 0.
\<close>

definition to_size_t :: "int \<Rightarrow> nat" where
  "to_size_t x = nat (x mod 2 ^ 64)"

definition to_int :: "int \<Rightarrow> int" where
  "to_int x = (x + 2 ^ 31) mod 2 ^ 32 - 2 ^ 31"

definition write_cell ::
  "(int \<Rightarrow> int \<Rightarrow> nat option) \<Rightarrow> int \<Rightarrow> int \<Rightarrow> nat \<Rightarrow> (int \<Rightarrow> int \<Rightarrow> nat option)" where
  "write_cell tab t i v = tab(t := (tab t)(i \<mapsto> v))"

definition read_cell :: "(int \<Rightarrow> int \<Rightarrow> nat option) \<Rightarrow> int \<Rightarrow> int \<Rightarrow> nat" where
  "read_cell tab t i = (case tab t i of None \<Rightarrow> 0 | Some v \<Rightarrow> v)"

fun fill_cells ::
  "int \<Rightarrow> int \<Rightarrow> nat \<Rightarrow> int list \<Rightarrow> (int \<Rightarrow> int \<Rightarrow> nat option) \<Rightarrow> (int \<Rightarrow> int \<Rightarrow> nat option)" where
  "fill_cells t offset_t v [] tab = tab"
| "fill_cells t offset_t v (i # rest) tab =
     fill_cells t offset_t v rest (write_cell tab t (i + offset_t) v)"

fun first_pass ::
  "(int \<Rightarrow> int) \<Rightarrow> int \<Rightarrow> int \<Rightarrow> int \<Rightarrow> int list \<Rightarrow> (int \<Rightarrow> int \<Rightarrow> nat option) \<times> int
     \<Rightarrow> (int \<Rightarrow> int \<Rightarrow> nat option) \<times> int" where
  "first_pass p nstars t offset_t [] st = st"
| "first_pass p nstars t offset_t (i # rest) st =
     (case st of (tab, iroll) \<Rightarrow>
        let tab' = write_cell tab t (i + offset_t)
                     (to_size_t (((p i * nstars) sdiv 10000 + 1) * 16));
            iroll' = to_int (int ((to_size_t (int (read_cell tab' t (i + offset_t)) - 16)) div 16
                                   + to_size_t iroll))
        in first_pass p nstars t offset_t rest (tab', iroll'))"

fun second_pass ::
  "(int \<Rightarrow> int) \<Rightarrow> int \<Rightarrow> int \<Rightarrow> int \<Rightarrow> int list \<Rightarrow> (int \<Rightarrow> int \<Rightarrow> nat option) \<times> int
     \<Rightarrow> (int \<Rightarrow> int \<Rightarrow> nat option) \<times> int" where
  "second_pass p nstars t offset_t [] st = st"
| "second_pass p nstars t offset_t (i # rest) st =
     (case st of (tab, iroll) \<Rightarrow>
        let old_output = read_cell tab t (i + offset_t);
            tab' = write_cell tab t (i + offset_t)
                     (to_size_t (int old_output
                                 + ((p i * (nstars - iroll)) sdiv 10000) * 16));
            iroll' = to_int (int ((to_size_t (int (read_cell tab' t (i + offset_t))
                                              - int old_output)) div 16
                                   + to_size_t iroll))
        in second_pass p nstars t offset_t rest (tab', iroll'))"

definition plan_row ::
  "(task_graph \<Rightarrow> int \<Rightarrow> int \<Rightarrow> int) \<Rightarrow> task_graph \<Rightarrow> int
     \<Rightarrow> (int \<Rightarrow> int \<Rightarrow> nat option) \<Rightarrow> (int \<Rightarrow> int \<Rightarrow> nat option)" where
  "plan_row hist g t tab =
     (let width_t = width_at_timestep g t;
          offset_t = offset_at_timestep g t;
          nstars = to_int (int (to_size_t ((int (output_bytes_per_task g) - 16) * width_t) div 16));
          p = (\<lambda>i. if output_case g = 1 \<or> output_case g = 2 \<or> output_case g = 3
                    then hist g t i else 0);
          tab0 = (if output_case g = 0
                  then fill_cells t offset_t (output_bytes_per_task g) [0..width_t - 1] tab
                  else tab)
      in if output_case g > 0
         then (case first_pass p nstars t offset_t [0..width_t - 1] (tab0, 0) of
                 (tab1, iroll1) \<Rightarrow>
                   (case second_pass p nstars t offset_t [0..width_t - 1] (tab1, iroll1) of
                      (tab2, iroll2) \<Rightarrow>
                        write_cell tab2 t (width_t - 1 + offset_t)
                          (to_size_t (int (read_cell tab2 t (width_t - 1 + offset_t))
                                      + (nstars - iroll2) * 16))))
         else tab0)"

fun plan_rows ::
  "(task_graph \<Rightarrow> int \<Rightarrow> int \<Rightarrow> int) \<Rightarrow> task_graph \<Rightarrow> int list
     \<Rightarrow> (int \<Rightarrow> int \<Rightarrow> nat option) \<Rightarrow> (int \<Rightarrow> int \<Rightarrow> nat option)" where
  "plan_rows hist g [] tab = tab"
| "plan_rows hist g (t # rest) tab = plan_rows hist g rest (plan_row hist g t tab)"

fun fill_rows ::
  "task_graph \<Rightarrow> int list \<Rightarrow> (int \<Rightarrow> int \<Rightarrow> nat option) \<Rightarrow> (int \<Rightarrow> int \<Rightarrow> nat option)" where
  "fill_rows g [] tab = tab"
| "fill_rows g (t # rest) tab =
     fill_rows g rest
       (fill_cells t (offset_at_timestep g t) 16 [0..width_at_timestep g t - 1] tab)"

definition allocate_bytes ::
  "(task_graph \<Rightarrow> int \<Rightarrow> int \<Rightarrow> int) \<Rightarrow> task_graph \<Rightarrow> error + task_graph" where
  "allocate_bytes hist g =
     (case output_bytes_size g of
        None \<Rightarrow> Inl Unallocated
      | Some tab \<Rightarrow>
          if output_bytes_per_task g = 16
          then Inr (g\<lparr>output_bytes_size := Some (fill_rows g [0..timesteps g - 1] tab)\<rparr>)
          else Inr (g\<lparr>output_bytes_size :=
                        Some (plan_rows hist g [0..timesteps g - 1] tab)\<rparr>))"

text \<open>
  The command line is \<open>argv\<close>, a list of strings; \<open>argc\<close> is its length. \<open>atol\<close> and
  \<open>atoi\<close> read an optional sign and the decimal digits that follow leading white
  space (a result outside the range of the type is not modelled); \<open>atof\<close> is the
  parameter \<open>atof\<close>.
\<close>

definition is_space :: "char \<Rightarrow> bool" where
  "is_space c \<longleftrightarrow> (of_char c :: nat) \<in> {32, 9, 10, 11, 12, 13}"

definition is_digit :: "char \<Rightarrow> bool" where
  "is_digit c \<longleftrightarrow> 48 \<le> (of_char c :: nat) \<and> (of_char c :: nat) \<le> 57"

fun atol_digits :: "string \<Rightarrow> int \<Rightarrow> int" where
  "atol_digits [] acc = acc"
| "atol_digits (c # cs) acc =
     (if is_digit c then atol_digits cs (acc * 10 + (int (of_char c) - 48)) else acc)"

definition atol :: "string \<Rightarrow> int" where
  "atol s =
     (case dropWhile is_space s of
        [] \<Rightarrow> 0
      | c # cs \<Rightarrow>
          if c = CHR ''-'' then - atol_digits cs 0
          else if c = CHR ''+'' then atol_digits cs 0
          else atol_digits (c # cs) 0)"

record App =
  graphs :: "task_graph list"
  nodes :: int
  verbose :: int
  enable_graph_validation :: bool

text \<open>The state of the parsing loop: the index \<open>i\<close>, the graph under construction, the application.\<close>

record parse_state =
  arg_index :: nat
  graph :: task_graph
  app :: App

text \<open>
  The tests \<open>if (!strcmp(argv[i], FLAG))\<close> follow each other without \<open>else\<close>, and a
  flag that takes an argument advances \<open>i\<close>: the tests after it look at the
  argument. Each test is a handler; \<open>run_handlers\<close> runs them in the order of the
  source. \<open>flag_with_argument\<close> is the common shape of a flag with a value:
  \<open>needs_argument\<close>, then \<open>argv[++i]\<close>.
\<close>

fun run_handlers ::
  "(parse_state \<Rightarrow> error + parse_state) list \<Rightarrow> parse_state \<Rightarrow> error + parse_state" where
  "run_handlers [] st = Inr st"
| "run_handlers (h # hs) st =
     (case h st of Inl e \<Rightarrow> Inl e | Inr st' \<Rightarrow> run_handlers hs st')"

definition plain_flag ::
  "string list \<Rightarrow> string \<Rightarrow> (parse_state \<Rightarrow> error + parse_state)
     \<Rightarrow> parse_state \<Rightarrow> error + parse_state" where
  "plain_flag argv flag act st =
     (if argv ! arg_index st = flag then act st else Inr st)"

definition flag_with_argument ::
  "string list \<Rightarrow> string \<Rightarrow> (string \<Rightarrow> parse_state \<Rightarrow> error + parse_state)
     \<Rightarrow> parse_state \<Rightarrow> error + parse_state" where
  "flag_with_argument argv flag act st =
     (if argv ! arg_index st = flag
      then if arg_index st + 1 \<ge> length argv then Inl ConfigurationError
           else act (argv ! (arg_index st + 1)) (st\<lparr>arg_index := arg_index st + 1\<rparr>)
      else Inr st)"

definition long_value ::
  "(int \<Rightarrow> bool) \<Rightarrow> (int \<Rightarrow> task_graph \<Rightarrow> task_graph) \<Rightarrow> string \<Rightarrow> parse_state
     \<Rightarrow> error + parse_state" where
  "long_value invalid assign arg st =
     (let v = atol arg
      in if invalid v then Inl ConfigurationError
         else Inr (st\<lparr>graph := assign v (graph st)\<rparr>))"

definition double_value ::
  "(string \<Rightarrow> real) \<Rightarrow> (real \<Rightarrow> bool) \<Rightarrow> (real \<Rightarrow> task_graph \<Rightarrow> task_graph) \<Rightarrow> string
     \<Rightarrow> parse_state \<Rightarrow> error + parse_state" where
  "double_value atof invalid assign arg st =
     (let v = atof arg
      in if invalid v then Inl ConfigurationError
         else Inr (st\<lparr>graph := assign v (graph st)\<rparr>))"

definition name_value ::
  "(string \<times> 'a) list \<Rightarrow> ('a \<Rightarrow> task_graph \<Rightarrow> task_graph) \<Rightarrow> string \<Rightarrow> parse_state
     \<Rightarrow> error + parse_state" where
  "name_value names assign arg st =
     (case map_of names arg of
        None \<Rightarrow> Inl ConfigurationError
      | Some v \<Rightarrow> Inr (st\<lparr>graph := assign v (graph st)\<rparr>))"

definition ktype_by_name :: "(string \<times> KernelType) list" where
  "ktype_by_name =
     [(''empty'', EMPTY), (''busy_wait'', BUSY_WAIT), (''memory_bound'', MEMORY_BOUND),
      (''compute_dgemm'', COMPUTE_DGEMM), (''memory_daxpy'', MEMORY_DAXPY),
      (''compute_bound'', COMPUTE_BOUND), (''compute_bound2'', COMPUTE_BOUND2),
      (''io_bound'', IO_BOUND), (''load_imbalance'', LOAD_IMBALANCE),
      (''dist_imbalance'', DIST_IMBALANCE), (''compute_and_mem'', COMPUTE_MEMORY)]"

definition disttype_by_name :: "(string \<times> DistType) list" where
  "disttype_by_name =
     [(''uniform'', UNIFORM), (''normal'', NORMAL), (''gamma'', GAMMA), (''cauchy'', CAUCHY)]"

definition dtype_by_name :: "(string \<times> DependenceType) list" where
  "dtype_by_name =
     [(''trivial'', TRIVIAL), (''no_comm'', NO_COMM), (''stencil_1d'', STENCIL_1D),
      (''stencil_1d_periodic'', STENCIL_1D_PERIODIC), (''dom'', DOM), (''tree'', TREE),
      (''fft'', FFT), (''all_to_all'', ALL_TO_ALL), (''nearest'', NEAREST),
      (''spread'', SPREAD), (''random_nearest'', RANDOM_NEAREST),
      (''random_spread'', RANDOM_SPREAD)]"

text \<open>The period of a graph that was given none (\<open>period < 0\<close>).\<close>

definition default_period :: "task_graph \<Rightarrow> task_graph" where
  "default_period g =
     (if period g < 0 then g\<lparr>period := (if needs_period (dependence g) then 3 else 0)\<rparr>
      else g)"

text \<open>The flag \<open>-and\<close>: the graph built so far is pushed as it is, and a default graph follows.\<close>

definition and_flag :: "parse_state \<Rightarrow> error + parse_state" where
  "and_flag st =
     (let gs = graphs (app st) @ [default_period (graph st)]
      in Inr (st\<lparr>app := (app st)\<lparr>graphs := gs\<rparr>, graph := default_graph (int (length gs))\<rparr>))"

text \<open>One round of the loop body: every test of the source, in its order.\<close>

definition parse_arg ::
  "(string \<Rightarrow> real) \<Rightarrow> string list \<Rightarrow> parse_state \<Rightarrow> error + parse_state" where
  "parse_arg atof argv =
     run_handlers
       [plain_flag argv ''-h'' (\<lambda>st. Inl HelpShown),
        flag_with_argument argv ''-nodes''
          (\<lambda>arg st. let v = atol arg
                     in if v \<le> 0 then Inl ConfigurationError
                        else Inr (st\<lparr>app := (app st)\<lparr>nodes := v\<rparr>\<rparr>)),
        plain_flag argv ''-v'' (\<lambda>st. Inr (st\<lparr>app := (app st)\<lparr>verbose := verbose (app st) + 1\<rparr>\<rparr>)),
        plain_flag argv ''-vv'' (\<lambda>st. Inr (st\<lparr>app := (app st)\<lparr>verbose := verbose (app st) + 2\<rparr>\<rparr>)),
        plain_flag argv ''-skip-graph-validation''
          (\<lambda>st. Inr (st\<lparr>app := (app st)\<lparr>enable_graph_validation := False\<rparr>\<rparr>)),
        flag_with_argument argv ''-steps''
          (long_value (\<lambda>v. v \<le> 0) (\<lambda>v g. g\<lparr>timesteps := v\<rparr>)),
        flag_with_argument argv ''-width''
          (long_value (\<lambda>v. v \<le> 0) (\<lambda>v g. g\<lparr>max_width := v\<rparr>)),
        flag_with_argument argv ''-type''
          (name_value dtype_by_name (\<lambda>v g. g\<lparr>dependence := v\<rparr>)),
        flag_with_argument argv ''-dist''
          (name_value disttype_by_name
             (\<lambda>v g. g\<lparr>kernel := (kernel g)\<lparr>kernel_dist := (kernel_dist (kernel g))\<lparr>dist_type := v\<rparr>\<rparr>\<rparr>)),
        flag_with_argument argv ''-radix''
          (long_value (\<lambda>v. v < 0) (\<lambda>v g. g\<lparr>radix := v\<rparr>)),
        flag_with_argument argv ''-period''
          (long_value (\<lambda>v. v < 0) (\<lambda>v g. g\<lparr>period := v\<rparr>)),
        flag_with_argument argv ''-fraction''
          (double_value atof (\<lambda>v. v < 0 \<or> v > 1) (\<lambda>v g. g\<lparr>fraction_connected := v\<rparr>)),
        flag_with_argument argv ''-kernel''
          (name_value ktype_by_name (\<lambda>v g. g\<lparr>kernel := (kernel g)\<lparr>kernel_type := v\<rparr>\<rparr>)),
        flag_with_argument argv ''-iter''
          (long_value (\<lambda>v. v < 0) (\<lambda>v g. g\<lparr>kernel := (kernel g)\<lparr>iterations := v\<rparr>\<rparr>)),
        flag_with_argument argv ''-output''
          (long_value (\<lambda>v. to_size_t v < 16) (\<lambda>v g. g\<lparr>output_bytes_per_task := to_size_t v\<rparr>)),
        flag_with_argument argv ''-scratch''
          (long_value (\<lambda>v. v < 0) (\<lambda>v g. g\<lparr>scratch_bytes_per_task := to_size_t v\<rparr>)),
        flag_with_argument argv ''-sample''
          (long_value (\<lambda>v. v < 0) (\<lambda>v g. g\<lparr>kernel := (kernel g)\<lparr>samples := v\<rparr>\<rparr>)),
        flag_with_argument argv ''-imbalance''
          (double_value atof (\<lambda>v. v < 0 \<or> v > 2)
             (\<lambda>v g. g\<lparr>kernel := (kernel g)\<lparr>imbalance := v\<rparr>\<rparr>)),
        flag_with_argument argv ''-mem-fraction''
          (double_value atof (\<lambda>v. v < 0 \<or> v > 1)
             (\<lambda>v g. g\<lparr>kernel := (kernel g)\<lparr>fraction_mem := v\<rparr>\<rparr>)),
        flag_with_argument argv ''-field''
          (long_value (\<lambda>v. v \<le> 0) (\<lambda>v g. g\<lparr>nb_fields := v\<rparr>)),
        flag_with_argument argv ''-output-case''
          (long_value (\<lambda>v. v < 0) (\<lambda>v g. g\<lparr>output_case := v\<rparr>)),
        flag_with_argument argv ''-output-mean''
          (long_value (\<lambda>v. v < 0) (\<lambda>v g. g\<lparr>onormal_mu := real_of_int v\<rparr>)),
        flag_with_argument argv ''-output-std''
          (long_value (\<lambda>v. v < 0) (\<lambda>v g. g\<lparr>onormal_std := real_of_int v\<rparr>)),
        flag_with_argument argv ''-output-gamma-a''
          (long_value (\<lambda>v. v < 0) (\<lambda>v g. g\<lparr>ogamma_alpha := real_of_int v\<rparr>)),
        flag_with_argument argv ''-output-gamma-b''
          (long_value (\<lambda>v. v < 0) (\<lambda>v g. g\<lparr>ogamma_beta := real_of_int v\<rparr>)),
        plain_flag argv ''-and'' and_flag,
        flag_with_argument argv ''-dist-max''
          (long_value (\<lambda>v. v \<le> 0)
             (\<lambda>v g. g\<lparr>kernel := (kernel g)\<lparr>kernel_dist := (kernel_dist (kernel g))\<lparr>dist_max := v\<rparr>\<rparr>\<rparr>)),
        flag_with_argument argv ''-dist-std''
          (long_value (\<lambda>v. v \<le> 0)
             (\<lambda>v g. g\<lparr>kernel := (kernel g)\<lparr>kernel_dist := (kernel_dist (kernel g))\<lparr>dist_std := v\<rparr>\<rparr>\<rparr>)),
        flag_with_argument argv ''-dist-beta''
          (double_value atof (\<lambda>v. v \<le> 0)
             (\<lambda>v g. g\<lparr>kernel := (kernel g)\<lparr>kernel_dist := (kernel_dist (kernel g))\<lparr>dist_b := v\<rparr>\<rparr>\<rparr>)),
        flag_with_argument argv ''-dist-alpha''
          (long_value (\<lambda>v. v \<le> 0)
             (\<lambda>v g. g\<lparr>kernel := (kernel g)\<lparr>kernel_dist := (kernel_dist (kernel g))\<lparr>dist_a := v\<rparr>\<rparr>\<rparr>))]"

text \<open>The loop \<open>for (int i = 1; i < argc; i++)\<close>.\<close>

function parse_loop ::
  "(string \<Rightarrow> real) \<Rightarrow> string list \<Rightarrow> parse_state \<Rightarrow> error + parse_state" where
  "parse_loop atof argv st =
     (if arg_index st < length argv
      then (case parse_arg atof argv st of
              Inl e \<Rightarrow> Inl e
            | Inr st' \<Rightarrow> parse_loop atof argv (st'\<lparr>arg_index := arg_index st' + 1\<rparr>))
      else Inr st)"
  by pat_completeness auto
termination
proof (relation "measure (\<lambda>(atof, argv, st). length argv - arg_index st)")
  show "wf (measure (\<lambda>(atof, argv, st). length argv - arg_index st))"
    by simp
next
  fix atof :: "string \<Rightarrow> real" and argv :: "string list" and st st' :: parse_state
  assume less: "arg_index st < length argv" and step: "parse_arg atof argv st = Inr st'"
  have handlers: "arg_index a \<le> arg_index b"
    if "run_handlers hs a = Inr b"
      and "\<forall>h \<in> set hs. \<forall>x y. h x = Inr y \<longrightarrow> arg_index x \<le> arg_index y"
    for hs a b
    using that
  proof (induction hs arbitrary: a)
    case Nil
    then show ?case by simp
  next
    case (Cons h hs)
    from Cons.prems(1) obtain c where c: "h a = Inr c" "run_handlers hs c = Inr b"
      by (auto split: sum.splits)
    have "arg_index a \<le> arg_index c"
      using Cons.prems(2) c(1) by simp
    moreover have "arg_index c \<le> arg_index b"
      using Cons.IH [OF c(2)] Cons.prems(2) by simp
    ultimately show ?case by simp
  qed
  have "arg_index st \<le> arg_index st'"
    by (rule handlers [OF step [unfolded parse_arg_def]])
      (auto simp: plain_flag_def flag_with_argument_def long_value_def double_value_def
         name_value_def and_flag_def Let_def split: if_splits option.splits)
  with less show "((atof, argv, st'\<lparr>arg_index := arg_index st' + 1\<rparr>), (atof, argv, st))
      \<in> measure (\<lambda>(atof, argv, st). length argv - arg_index st)"
    by simp
qed

text \<open>
  The constructor: the parsing loop, the tests on the distribution of the kernel,
  the default period, then for the graph in hand \<^emph>\<open>only\<close> the allocation of the table
  (\<open>new size_t*[timesteps]\<close>, each row \<open>new size_t[max_width]\<close>) and \<open>allocate_bytes\<close>,
  the push of that graph, the default of \<open>nb_fields\<close>, and \<open>check\<close>.
\<close>

definition check_distribution :: "task_graph \<Rightarrow> error + unit" where
  "check_distribution g =
     (let k = kernel g; d = kernel_dist k
      in if kernel_type k = DIST_IMBALANCE
         then if dist_type d = UNIFORM \<and> dist_max d < iterations k then Inl ConfigurationError
              else if dist_type d = GAMMA \<and> dist_a d \<le> 0 then Inl ConfigurationError
              else if dist_type d = NORMAL \<and> dist_std d \<le> 0 then Inl ConfigurationError
              else if dist_type d = CAUCHY \<and> dist_b d \<le> 0 then Inl ConfigurationError
              else Inr ()
         else Inr ())"

definition default_nb_fields :: "task_graph \<Rightarrow> task_graph" where
  "default_nb_fields g = (if nb_fields g = 0 then g\<lparr>nb_fields := timesteps g\<rparr> else g)"

definition App_create ::
  "(int list \<Rightarrow> real) \<Rightarrow> (string \<Rightarrow> real) \<Rightarrow> (task_graph \<Rightarrow> int \<Rightarrow> int \<Rightarrow> int)
     \<Rightarrow> string list \<Rightarrow> error + App" where
  "App_create ru atof hist argv =
     (case parse_loop atof argv
             \<lparr>arg_index = 1, graph = default_graph 0,
              app = \<lparr>graphs = [], nodes = 0, verbose = 0, enable_graph_validation = True\<rparr>\<rparr> of
        Inl e \<Rightarrow> Inl e
      | Inr st \<Rightarrow>
          (case check_distribution (graph st) of
             Inl e \<Rightarrow> Inl e
           | Inr _ \<Rightarrow>
               (case allocate_bytes hist
                       ((default_period (graph st))\<lparr>output_bytes_size := Some (\<lambda>t i. None)\<rparr>) of
                  Inl e \<Rightarrow> Inl e
                | Inr g \<Rightarrow>
                    let gs = map default_nb_fields (graphs (app st) @ [g])
                    in (case App_check ru gs of
                          Inl e \<Rightarrow> Inl e
                        | Inr _ \<Rightarrow> Inr ((app st)\<lparr>graphs := gs\<rparr>)))))"

subsection \<open>Configurations used as examples\<close>

text \<open>
  Each is the default graph with the fields a command line would set. \<open>ru_zero\<close> is a
  hash that returns 0 on every tuple; \<open>ru_order\<close> returns 0 when the fourth entry of the
  tuple is below the fifth and 1/2 otherwise, so it tells the two orders of a pair
  of points apart.
\<close>

definition ru_zero :: "int list \<Rightarrow> real" where
  "ru_zero k = 0"

definition tree_graph :: task_graph where
  "tree_graph = (default_graph 0)\<lparr>dependence := TREE, period := 0\<rparr>"

definition dom_graph :: task_graph where
  "dom_graph =
     (default_graph 0)\<lparr>timesteps := 4, max_width := 6, dependence := DOM, period := 0\<rparr>"


definition fft_graph :: task_graph where
  "fft_graph =
     (default_graph 0)\<lparr>timesteps := 1, max_width := 1, dependence := FFT, period := 0\<rparr>"

definition random_spread_graph :: "int \<Rightarrow> task_graph" where
  "random_spread_graph n = (default_graph 0)\<lparr>dependence := RANDOM_SPREAD, period := n\<rparr>"



definition random_nearest_radix0 :: task_graph where
  "random_nearest_radix0 =
     (default_graph 0)\<lparr>dependence := RANDOM_NEAREST, radix := 0, period := 1,
                        fraction_connected := 1\<rparr>"

definition stencil_graph :: task_graph where
  "stencil_graph = (default_graph 0)\<lparr>dependence := STENCIL_1D, period := 0\<rparr>"

text \<open>
  Three input buffers for the point 1 of timestep 1 of \<open>stencil_graph\<close>: what the
  points 0, 1, 2 of timestep 0 write into outputs of 16, 32 and 16 bytes.
\<close>

definition stencil_inputs :: "input_buffer list" where
  "stencil_inputs =
     [\<lparr>input_bytes = 16, input_ptr = [(0, 0)]\<rparr>,
      \<lparr>input_bytes = 32, input_ptr = [(0, 1), (0, 1)]\<rparr>,
      \<lparr>input_bytes = 16, input_ptr = [(0, 2)]\<rparr>]"

text \<open>Command lines.\<close>

definition two_graphs_argv :: "string list" where
  "two_graphs_argv = [''task_bench'', ''-width'', ''2'', ''-and'', ''-width'', ''3'']"

definition fft_argv :: "string list" where
  "fft_argv = [''task_bench'', ''-steps'', ''1'', ''-width'', ''1'', ''-type'', ''fft'']"

definition random_spread_argv :: "string list" where
  "random_spread_argv = [''task_bench'', ''-type'', ''random_spread'']"

definition random_spread_period_argv :: "string list" where
  "random_spread_period_argv = [''task_bench'', ''-type'', ''random_spread'', ''-period'', ''3'']"

subsection \<open>Formulas of the specification\<close>



subsection \<open>Coverage of a point by a list of intervals\<close>


text \<open>
  The number of runs a state of the \<open>RANDOM_NEAREST\<close> sweep stands for: the intervals
  written, and the run that is open.
\<close>

definition open_runs :: "int \<times> interval list \<Rightarrow> nat" where
  "open_runs s = length (snd s) + (if fst s \<ge> 0 then 1 else 0)"

section \<open>Properties\<close>

subsection \<open>Truncating division on non-negative operands\<close>

lemma sdiv_nonneg: "0 \<le> a \<Longrightarrow> 0 \<le> b \<Longrightarrow> a sdiv b = a div (b::int)"
  by (simp add: signed_divide_int_def sgn_if)

lemma smod_nonneg: "0 \<le> a \<Longrightarrow> 0 \<le> b \<Longrightarrow> a smod b = a mod (b::int)"
  by (simp add: signed_modulo_int_def sgn_if)

subsection \<open>Offsets and widths\<close>

text \<open>
  C3 (as amended). For a graph with dependence pattern tree and every timestep \<open>t\<close> in
  \<open>[0, timesteps)\<close>, \<open>offset_at_timestep(t) = 0\<close> and
  \<open>width_at_timestep(t) = min(max_width, 2 ^ min(t, 62))\<close>: the row doubles from one
  point until it reaches the full width, and it has the full width exactly when
  \<open>max_width \<le> 2 ^ min(t, 62)\<close>.
\<close>

theorem tree_offset_width:
  assumes "dependence g = TREE" and "0 \<le> t" and "t < timesteps g"
  shows "offset_at_timestep g t = 0
         \<and> width_at_timestep g t = min (max_width g) (2 ^ nat (min t 62))
         \<and> (width_at_timestep g t = max_width g \<longleftrightarrow> max_width g \<le> 2 ^ nat (min t 62))"
  using assms by (auto simp add: width_at_timestep_def offset_at_timestep_def)

text \<open>Witness: the default tree of width 4 at timestep 1 has two points.\<close>

theorem tree_offset_width_witness:
  "dependence tree_graph = TREE \<and> (0::int) \<le> 1 \<and> 1 < timesteps tree_graph
   \<and> offset_at_timestep tree_graph 1 = 0 \<and> width_at_timestep tree_graph 1 = 2
   \<and> width_at_timestep tree_graph 1 \<noteq> max_width tree_graph"
  using tree_offset_width [of tree_graph 1]
  by (simp add: tree_graph_def default_graph_def)

text \<open>
  C3 as stated fails: the first row of the default tree (width 4) has one point,
  not \<open>max_width\<close>.
\<close>

theorem tree_full_width_counterexample:
  "dependence tree_graph = TREE \<and> (0::int) \<le> 0 \<and> 0 < timesteps tree_graph
   \<and> \<not> (offset_at_timestep tree_graph 0 = 0
          \<and> width_at_timestep tree_graph 0 = max_width tree_graph)"
  by (simp add: tree_graph_def default_graph_def width_at_timestep_def offset_at_timestep_def)

text \<open>
  C4 (as amended). For a dom graph with \<open>timesteps = 4\<close> and \<open>max_width = 6\<close>,
  \<open>offset_at_timestep(3) = 5\<close> and \<open>width_at_timestep(3) = 1\<close>.
\<close>

theorem dom_offset_width_at_3:
  assumes "dependence g = DOM" and "timesteps g = 4" and "max_width g = 6"
  shows "offset_at_timestep g 3 = 5 \<and> width_at_timestep g 3 = 1"
  using assms by (simp add: width_at_timestep_def offset_at_timestep_def)

theorem dom_offset_width_at_3_witness:
  "dependence dom_graph = DOM \<and> timesteps dom_graph = 4 \<and> max_width dom_graph = 6
   \<and> offset_at_timestep dom_graph 3 = 5 \<and> width_at_timestep dom_graph 3 = 1"
  using dom_offset_width_at_3 [of dom_graph]
  by (simp add: dom_graph_def default_graph_def)

text \<open>C4 as stated fails on the graph of \<open>-steps 4 -width 6 -type dom\<close>.\<close>

theorem dom_offset_width_counterexample:
  "dependence dom_graph = DOM \<and> timesteps dom_graph = 4 \<and> max_width dom_graph = 6
   \<and> \<not> (offset_at_timestep dom_graph 3 = 1 \<and> width_at_timestep dom_graph 3 = 3)"
  by (simp add: dom_graph_def default_graph_def width_at_timestep_def offset_at_timestep_def)

subsection \<open>The spread pattern\<close>




subsection \<open>Dependence sets and the period test\<close>

text \<open>
  C6 (the code at the failing input). The graph of \<open>-steps 1 -width 1 -type fft\<close> has
  at least one timestep and one point and passes the period tests, yet its
  \<open>max_dependence_sets()\<close> is 0 and \<open>dependence_set_at_timestep(0)\<close> divides by zero;
  the constructor of \<open>App\<close> ends in that division on this command line.
\<close>

theorem fft_width_1_no_dependence_set:
  "timesteps fft_graph \<ge> 1 \<and> max_width fft_graph \<ge> 1 \<and> check_period fft_graph = Inr ()
   \<and> max_dependence_sets fft_graph = 0
   \<and> dependence_set_at_timestep fft_graph 0 = Inl DivisionByZero
   \<and> App_create ru atof hist fft_argv = Inl DivisionByZero"
proof -
  have "case App_create ru atof hist fft_argv of
          Inl e \<Rightarrow> e = DivisionByZero
        | Inr a \<Rightarrow> False"
    by code_simp
  then have "App_create ru atof hist fft_argv = Inl DivisionByZero"
    by (simp split: sum.splits)
  then show ?thesis
    by (simp add: fft_graph_def default_graph_def check_period_def needs_period_def c_div_def
        max_dependence_sets_def dependence_set_at_timestep_def c_mod_def)
qed

text \<open>
  C7 (the code at the failing input). The period tests of \<open>App::check\<close> reject a
  random_spread graph with period 3 and let one with period 0 pass; on the command
  line, \<open>-type random_spread -period 3\<close> is refused as a configuration error, and
  \<open>-type random_spread\<close> alone (period 0) passes the period tests and then divides by
  zero in \<open>dependence_set_at_timestep\<close>.
\<close>

theorem random_spread_period_test:
  "check_period (random_spread_graph 3) = Inl ConfigurationError
   \<and> check_period (random_spread_graph 0) = Inr ()
   \<and> App_create ru atof hist random_spread_period_argv = Inl ConfigurationError
   \<and> App_create ru atof hist random_spread_argv = Inl DivisionByZero"
proof -
  have "case App_create ru atof hist random_spread_period_argv of
          Inl e \<Rightarrow> e = ConfigurationError
        | Inr a \<Rightarrow> False"
    and "case App_create ru atof hist random_spread_argv of
          Inl e \<Rightarrow> e = DivisionByZero
        | Inr a \<Rightarrow> False"
    by code_simp+
  then have "App_create ru atof hist random_spread_period_argv = Inl ConfigurationError"
    and "App_create ru atof hist random_spread_argv = Inl DivisionByZero"
    by (simp_all split: sum.splits)
  then show ?thesis
    by (simp add: random_spread_graph_def default_graph_def check_period_def needs_period_def
        c_div_def)
qed



subsection \<open>The sweep of the random_nearest pattern\<close>



lemma sweep_count:
  "open_runs (random_nearest_sweep incl xs rs deps)
     \<le> open_runs (rs, deps) + (length xs + (if rs \<ge> 0 then 0 else 1)) div 2"
proof (induction xs arbitrary: rs deps)
  case Nil
  then show ?case by simp
next
  case (Cons i xs)
  show ?case
  proof (cases "incl i")
    case True
    then show ?thesis
      using Cons.IH [of "if rs < 0 then i else rs" deps]
      by (auto simp: open_runs_def split: if_splits)
  next
    case False
    then show ?thesis
      using Cons.IH [of "- 1" "if rs \<ge> 0 then deps @ [(rs, i - 1)] else deps"]
      by (auto simp: open_runs_def split: if_splits)
  qed
qed

lemma runs_count:
  "length (random_nearest_runs incl first last_i) \<le> (nat (last_i - first + 1) + 1) div 2"
proof -
  obtain rs deps where s: "random_nearest_sweep incl [first..last_i] (- 1) [] = (rs, deps)"
    by (cases "random_nearest_sweep incl [first..last_i] (- 1) []")
  have "open_runs (rs, deps) \<le> (length [first..last_i] + 1) div 2"
    using sweep_count [of incl "[first..last_i]" "- 1" "[]"] by (simp add: s open_runs_def)
  then show ?thesis
    by (simp add: random_nearest_runs_def s open_runs_def Let_def split: if_splits)
qed


subsection \<open>Dependencies and reverse dependencies mirror each other\<close>








subsection \<open>What a valid configuration guarantees\<close>

lemma check_graph_parts:
  assumes "check_graph ru g = Inr ()"
  shows "check_period g = Inr ()" and "check_timesteps g [0..timesteps g - 1] = Inr ()"
    and "check_dsets ru g [0..max_dependence_sets g - 1] = Inr ()"
  using assms by (auto simp: check_graph_def split: sum.splits)

lemma check_timesteps_member:
  assumes "check_timesteps g ts = Inr ()" and "t \<in> set ts"
  shows "0 \<le> offset_at_timestep g t \<and> 0 \<le> width_at_timestep g t
         \<and> offset_at_timestep g t + width_at_timestep g t \<le> max_width g
         \<and> (\<exists>d. dependence_set_at_timestep g t = Inr d \<and> 0 \<le> d \<and> d \<le> max_dependence_sets g)"
  using assms
proof (induction ts)
  case Nil
  then show ?case by simp
next
  case (Cons a ts)
  from Cons.prems(1) have
    here: "0 \<le> offset_at_timestep g a \<and> 0 \<le> width_at_timestep g a
         \<and> offset_at_timestep g a + width_at_timestep g a \<le> max_width g
         \<and> (\<exists>d. dependence_set_at_timestep g a = Inr d \<and> 0 \<le> d \<and> d \<le> max_dependence_sets g)"
    and rest: "check_timesteps g ts = Inr ()"
    by (auto simp: Let_def split: if_splits sum.splits)
  show ?case
  proof (cases "t = a")
    case True
    with here show ?thesis by simp
  next
    case False
    with Cons.prems(2) have "t \<in> set ts" by simp
    with Cons.IH rest show ?thesis by simp
  qed
qed

lemma valid_timestep:
  assumes "valid_graph ru g" and "0 \<le> t" and "t < timesteps g"
  shows "0 \<le> offset_at_timestep g t \<and> 0 \<le> width_at_timestep g t
         \<and> offset_at_timestep g t + width_at_timestep g t \<le> max_width g
         \<and> (\<exists>d. dependence_set_at_timestep g t = Inr d \<and> 0 \<le> d \<and> d \<le> max_dependence_sets g)"
proof -
  have "check_timesteps g [0..timesteps g - 1] = Inr ()"
    using assms(1) check_graph_parts(2) [of ru g] by (simp add: valid_graph_def)
  moreover have "t \<in> set [0..timesteps g - 1]" using assms(2,3) by simp
  ultimately show ?thesis by (rule check_timesteps_member)
qed

lemma valid_max_dependence_sets:
  assumes "valid_graph ru g"
  shows "1 \<le> max_dependence_sets g"
proof -
  have "0 < timesteps g" using assms by (simp add: valid_graph_def)
  then obtain d where d: "dependence_set_at_timestep g 0 = Inr d" "0 \<le> d" "d \<le> max_dependence_sets g"
    using valid_timestep [OF assms, of 0] by auto
  then have "max_dependence_sets g \<noteq> 0 \<or> max_dependence_sets g = 1"
    by (cases "dependence g")
      (auto simp: dependence_set_at_timestep_def max_dependence_sets_def c_mod_def
        split: if_splits)
  with d show ?thesis by auto
qed

lemma valid_not_random_spread:
  assumes "valid_graph ru g"
  shows "dependence g \<noteq> RANDOM_SPREAD"
proof
  assume rs: "dependence g = RANDOM_SPREAD"
  have "check_period g = Inr ()"
    using assms check_graph_parts(1) [of ru g] by (simp add: valid_graph_def)
  then have "period g = 0"
    using rs by (auto simp: check_period_def needs_period_def split: if_splits)
  then have "max_dependence_sets g = 0"
    using rs by (simp add: max_dependence_sets_def)
  with valid_max_dependence_sets [OF assms] show False by simp
qed

lemma valid_radix:
  assumes "valid_graph ru g"
  shows "1 \<le> radix g"
proof -
  have "check_period g = Inr ()"
    using assms check_graph_parts(1) [of ru g] by (simp add: valid_graph_def)
  then have "radix g \<noteq> 0"
    by (auto simp: check_period_def c_div_def split: if_splits)
  moreover have "0 \<le> radix g" using assms by (simp add: valid_graph_def)
  ultimately show ?thesis by simp
qed

lemma valid_dset:
  assumes "valid_graph ru g" and "0 \<le> t"
  shows "\<exists>d. dependence_set_at_timestep g t = Inr d \<and> 0 \<le> d \<and> d < max_dependence_sets g"
proof -
  let ?m = "max_dependence_sets g"
  have m: "1 \<le> ?m" by (rule valid_max_dependence_sets [OF assms(1)])
  have a: "(t + ?m - 1) smod ?m = (t + ?m - 1) mod ?m" and b: "t smod ?m = t mod ?m"
    using m assms(2) by (simp_all add: smod_nonneg)
  have "0 \<le> (t + ?m - 1) mod ?m \<and> (t + ?m - 1) mod ?m < ?m \<and> 0 \<le> t mod ?m \<and> t mod ?m < ?m"
    using m by simp
  then show ?thesis
    using m a b
    by (cases "dependence g") (auto simp: dependence_set_at_timestep_def c_mod_def)
qed



subsection \<open>The number of intervals written\<close>

lemma window_count:
  assumes "1 \<le> (r::int)"
  shows "(nat (min (p + (r - 1) sdiv 2) w - max 0 (p - r sdiv 2) + 1) + 1) div 2 \<le> nat r"
proof -
  have "(r - 1) sdiv 2 = (r - 1) div 2" and "r sdiv 2 = r div 2"
    using assms by (simp_all add: sdiv_nonneg)
  then have "min (p + (r - 1) sdiv 2) w - max 0 (p - r sdiv 2) + 1 \<le> r"
    by auto
  then have "nat (min (p + (r - 1) sdiv 2) w - max 0 (p - r sdiv 2) + 1) \<le> nat r"
    by simp
  moreover have "1 \<le> nat r" using assms by simp
  ultimately show ?thesis by linarith
qed

lemma window_count_rev:
  assumes "1 \<le> (r::int)"
  shows "(nat (min (p + r sdiv 2) w - max 0 (p - (r - 1) sdiv 2) + 1) + 1) div 2 \<le> nat r"
proof -
  have "(r - 1) sdiv 2 = (r - 1) div 2" and "r sdiv 2 = r div 2"
    using assms by (simp_all add: sdiv_nonneg)
  then have "min (p + r sdiv 2) w - max 0 (p - (r - 1) sdiv 2) + 1 \<le> r"
    by auto
  then have "nat (min (p + r sdiv 2) w - max 0 (p - (r - 1) sdiv 2) + 1) \<le> nat r"
    by simp
  moreover have "1 \<le> nat r" using assms by simp
  ultimately show ?thesis by linarith
qed

lemma dependencies_count:
  assumes "dependence g \<noteq> RANDOM_SPREAD" and "0 < max_width g"
    and "dependence g = RANDOM_NEAREST \<longrightarrow> 1 \<le> radix g"
  shows "\<exists>ds n. dependencies ru g dset p = Inr ds \<and> num_dependencies g dset p = Inr n
           \<and> length ds \<le> n"
proof (cases "dependence g")
  case RANDOM_NEAREST
  with assms(3) have r: "1 \<le> radix g" by simp
  show ?thesis
    using RANDOM_NEAREST
      order_trans [OF runs_count window_count [OF r, of p "max_width g - 1"]]
    by (simp add: dependencies_def num_dependencies_def)
next
  case RANDOM_SPREAD
  with assms(1) show ?thesis by simp
qed (use assms(2) in \<open>auto simp: dependencies_def num_dependencies_def Let_def\<close>)

lemma reverse_dependencies_count:
  assumes "dependence g \<noteq> RANDOM_SPREAD" and "0 < max_width g"
    and "dependence g = RANDOM_NEAREST \<longrightarrow> 1 \<le> radix g"
  shows "\<exists>ds n. reverse_dependencies ru g dset p = Inr ds
           \<and> num_reverse_dependencies g dset p = Inr n \<and> length ds \<le> n"
proof (cases "dependence g")
  case RANDOM_NEAREST
  with assms(3) have r: "1 \<le> radix g" by simp
  show ?thesis
    using RANDOM_NEAREST
      order_trans [OF runs_count window_count_rev [OF r, of p "max_width g - 1"]]
    by (simp add: reverse_dependencies_def num_reverse_dependencies_def)
next
  case RANDOM_SPREAD
  with assms(1) show ?thesis by simp
qed (use assms(2) in \<open>auto simp: reverse_dependencies_def num_reverse_dependencies_def Let_def\<close>)

text \<open>
  C10 (the code at the failing input). For the graph of
  \<open>-type random_nearest -radix 0 -period 1 -fraction 1\<close> and a hash value below 1 (the
  hash is uniform in \<open>[0, 1)\<close>), \<open>num_dependencies(0, 0)\<close> is 0 while \<open>dependencies(0, 0)\<close>
  writes the interval \<open>[0, 0]\<close>: the vector of \<open>dependencies(dset, point)\<close> and the
  \<open>alloca\<close> buffer of \<open>execute_point\<close> are overrun. The reverse direction does the same.
\<close>

theorem random_nearest_radix_0_overrun:
  assumes "ru [0, 0, 0, 0, 0] < 1"
  shows "num_dependencies random_nearest_radix0 0 0 = Inr 0
         \<and> dependencies ru random_nearest_radix0 0 0 = Inr [(0, 0)]
         \<and> dependencies_vec ru random_nearest_radix0 0 0 = Inl BufferOverrun
         \<and> validate_input ru random_nearest_radix0 1 0 inputs = Inl BufferOverrun
         \<and> num_reverse_dependencies random_nearest_radix0 0 0 = Inr 0
         \<and> reverse_dependencies ru random_nearest_radix0 0 0 = Inr [(0, 0)]
         \<and> reverse_dependencies_vec ru random_nearest_radix0 0 0 = Inl BufferOverrun"
proof -
  have n: "num_dependencies random_nearest_radix0 0 0 = Inr 0"
    and nr: "num_reverse_dependencies random_nearest_radix0 0 0 = Inr 0"
    by (simp_all add: random_nearest_radix0_def default_graph_def num_dependencies_def
        num_reverse_dependencies_def)
  have d: "dependencies ru random_nearest_radix0 0 0 = Inr [(0, 0)]"
    using assms
    by (simp add: random_nearest_radix0_def default_graph_def dependencies_def
        random_nearest_runs_def forward_include_def forward_hash_value_def
        signed_divide_int_def upto_rec1)
  have r: "reverse_dependencies ru random_nearest_radix0 0 0 = Inr [(0, 0)]"
    using assms
    by (simp add: random_nearest_radix0_def default_graph_def reverse_dependencies_def
        random_nearest_runs_def reverse_include_def reverse_hash_value_def
        signed_divide_int_def upto_rec1)
  have s: "dependence_set_at_timestep random_nearest_radix0 1 = Inr 0"
    by (simp add: random_nearest_radix0_def default_graph_def dependence_set_at_timestep_def
        max_dependence_sets_def c_mod_def signed_modulo_int_def)
  show ?thesis
    by (simp add: n nr d r s dependencies_vec_def reverse_dependencies_vec_def
        validate_input_def)
qed

theorem random_nearest_radix_0_overrun_witness:
  "ru_zero [0, 0, 0, 0, 0] < 1
   \<and> num_dependencies random_nearest_radix0 0 0 = Inr 0
   \<and> dependencies ru_zero random_nearest_radix0 0 0 = Inr [(0, 0)]
   \<and> dependencies_vec ru_zero random_nearest_radix0 0 0 = Inl BufferOverrun"
  using random_nearest_radix_0_overrun [of ru_zero]
  by (simp add: ru_zero_def)

subsection \<open>Round trip through \<open>execute_point\<close>\<close>

lemma validate_slots_ok:
  assumes "\<forall>i \<in> set slots. i < length input \<and> input ! i = (timestep - 1, dep)"
  shows "validate_slots timestep dep input slots = Inr ()"
  using assms by (induction slots) auto

lemma validate_slots_generated:
  "validate_slots (t + 1) dep (generate_output t dep n) [0..<n div 16] = Inr ()"
  by (rule validate_slots_ok) (simp add: generate_output_def)

lemma validate_span_ok:
  assumes "idx + length (filter (\<lambda>d. lo \<le> d \<and> d < lo + lw) xs) \<le> length inputs"
    and "\<forall>k < length (filter (\<lambda>d. lo \<le> d \<and> d < lo + lw) xs).
           16 \<le> input_bytes (inputs ! (idx + k))
           \<and> validate_slots timestep (filter (\<lambda>d. lo \<le> d \<and> d < lo + lw) xs ! k)
                 (input_ptr (inputs ! (idx + k)))
                 [0..<input_bytes (inputs ! (idx + k)) div 16] = Inr ()"
  shows "validate_span timestep lo lw inputs xs idx
           = Inr (idx + length (filter (\<lambda>d. lo \<le> d \<and> d < lo + lw) xs))"
  using assms
proof (induction xs arbitrary: idx)
  case Nil
  then show ?case by simp
next
  case (Cons d xs)
  let ?req = "filter (\<lambda>d. lo \<le> d \<and> d < lo + lw) xs"
  show ?case
  proof (cases "lo \<le> d \<and> d < lo + lw")
    case True
    have here: "idx < length inputs" "16 \<le> input_bytes (inputs ! idx)"
      "validate_slots timestep d (input_ptr (inputs ! idx))
         [0..<input_bytes (inputs ! idx) div 16] = Inr ()"
      using Cons.prems True by (auto dest: spec [of _ 0])
    have "validate_span timestep lo lw inputs xs (idx + 1) = Inr (idx + 1 + length ?req)"
    proof (rule Cons.IH)
      show "idx + 1 + length ?req \<le> length inputs"
        using Cons.prems(1) True by simp
      show "\<forall>k < length ?req.
           16 \<le> input_bytes (inputs ! (idx + 1 + k))
           \<and> validate_slots timestep (?req ! k) (input_ptr (inputs ! (idx + 1 + k)))
                 [0..<input_bytes (inputs ! (idx + 1 + k)) div 16] = Inr ()"
      proof (intro allI impI)
        fix k assume "k < length ?req"
        then show "16 \<le> input_bytes (inputs ! (idx + 1 + k))
           \<and> validate_slots timestep (?req ! k) (input_ptr (inputs ! (idx + 1 + k)))
                 [0..<input_bytes (inputs ! (idx + 1 + k)) div 16] = Inr ()"
          using Cons.prems(2) [rule_format, of "Suc k"] True by simp
      qed
    qed
    then show ?thesis
      using True here by simp
  next
    case False
    then have f: "filter (\<lambda>d. lo \<le> d \<and> d < lo + lw) (d # xs) = ?req"
      by simp
    have "validate_span timestep lo lw inputs xs idx = Inr (idx + length ?req)"
      using Cons.prems unfolding f by (rule Cons.IH)
    then show ?thesis
      using False unfolding f by auto
  qed
qed

lemma validate_spans_ok:
  assumes "idx + length (concat (map (\<lambda>sp. filter (\<lambda>d. lo \<le> d \<and> d < lo + lw) [fst sp..snd sp]) deps))
             \<le> length inputs"
    and "\<forall>k < length (concat (map (\<lambda>sp. filter (\<lambda>d. lo \<le> d \<and> d < lo + lw) [fst sp..snd sp]) deps)).
           16 \<le> input_bytes (inputs ! (idx + k))
           \<and> validate_slots timestep
                 (concat (map (\<lambda>sp. filter (\<lambda>d. lo \<le> d \<and> d < lo + lw) [fst sp..snd sp]) deps) ! k)
                 (input_ptr (inputs ! (idx + k)))
                 [0..<input_bytes (inputs ! (idx + k)) div 16] = Inr ()"
  shows "\<exists>n. validate_spans timestep lo lw inputs deps idx = Inr n"
  using assms
proof (induction deps arbitrary: idx)
  case Nil
  then show ?case by simp
next
  case (Cons sp deps)
  let ?here = "filter (\<lambda>d. lo \<le> d \<and> d < lo + lw) [fst sp..snd sp]"
  let ?rest = "concat (map (\<lambda>sp. filter (\<lambda>d. lo \<le> d \<and> d < lo + lw) [fst sp..snd sp]) deps)"
  have first: "validate_span timestep lo lw inputs [fst sp..snd sp] idx = Inr (idx + length ?here)"
  proof (rule validate_span_ok)
    show "idx + length ?here \<le> length inputs"
      using Cons.prems(1) by simp
    show "\<forall>k < length ?here.
           16 \<le> input_bytes (inputs ! (idx + k))
           \<and> validate_slots timestep (?here ! k) (input_ptr (inputs ! (idx + k)))
                 [0..<input_bytes (inputs ! (idx + k)) div 16] = Inr ()"
    proof (intro allI impI)
      fix k assume k: "k < length ?here"
      then show "16 \<le> input_bytes (inputs ! (idx + k))
           \<and> validate_slots timestep (?here ! k) (input_ptr (inputs ! (idx + k)))
                 [0..<input_bytes (inputs ! (idx + k)) div 16] = Inr ()"
        using Cons.prems(2) [rule_format, of k] by (simp add: nth_append)
    qed
  qed
  have "\<exists>n. validate_spans timestep lo lw inputs deps (idx + length ?here) = Inr n"
  proof (rule Cons.IH)
    show "idx + length ?here + length ?rest \<le> length inputs"
      using Cons.prems(1) by simp
    show "\<forall>k < length ?rest.
           16 \<le> input_bytes (inputs ! (idx + length ?here + k))
           \<and> validate_slots timestep (?rest ! k) (input_ptr (inputs ! (idx + length ?here + k)))
                 [0..<input_bytes (inputs ! (idx + length ?here + k)) div 16] = Inr ()"
    proof (intro allI impI)
      fix k assume k: "k < length ?rest"
      then show "16 \<le> input_bytes (inputs ! (idx + length ?here + k))
           \<and> validate_slots timestep (?rest ! k) (input_ptr (inputs ! (idx + length ?here + k)))
                 [0..<input_bytes (inputs ! (idx + length ?here + k)) div 16] = Inr ()"
        using Cons.prems(2) [rule_format, of "length ?here + k"]
        by (simp add: nth_append add.assoc)
    qed
  qed
  then show ?case
    using first by simp
qed

lemma valid_dependencies_vec:
  assumes "valid_graph ru g"
  shows "\<exists>ds. dependencies ru g dset p = Inr ds \<and> dependencies_vec ru g dset p = Inr ds
           \<and> (\<exists>n. num_dependencies g dset p = Inr n \<and> length ds \<le> n)"
proof -
  have "0 < max_width g" using assms by (simp add: valid_graph_def)
  then obtain ds n where "dependencies ru g dset p = Inr ds"
      "num_dependencies g dset p = Inr n" "length ds \<le> n"
    using dependencies_count [OF valid_not_random_spread [OF assms], of ru dset p]
      valid_radix [OF assms] by auto
  then show ?thesis by (simp add: dependencies_vec_def)
qed

lemma execute_point_output:
  assumes "execute_point ru g timestep point output_bytes inputs scratch_ptr scratch_bytes = Inr out"
  shows "out = generate_output timestep point output_bytes \<and> 16 \<le> output_bytes
         \<and> validate_input ru g timestep point inputs = Inr ()"
proof -
  have a: "0 \<le> timestep \<and> timestep < timesteps g"
    using assms unfolding execute_point_def by (simp split: if_splits)
  have b: "offset_at_timestep g timestep \<le> point
           \<and> point < offset_at_timestep g timestep + width_at_timestep g timestep"
    using assms a unfolding execute_point_def Let_def by (simp split: if_splits)
  obtain u where v: "validate_input ru g timestep point inputs = Inr u"
    using assms a b unfolding execute_point_def Let_def
    by (cases "validate_input ru g timestep point inputs") simp_all
  have c: "16 \<le> output_bytes"
    using assms a b v unfolding execute_point_def Let_def by (simp split: if_splits)
  have "out = generate_output timestep point output_bytes"
    using assms a b v c unfolding execute_point_def Let_def
    by (simp split: sum.splits)
  with c v show ?thesis by simp
qed

text \<open>
  C2. For every valid graph, every timestep \<open>t\<close> with \<open>0 \<le> t < timesteps - 1\<close> and every
  point \<open>q\<close> of the row \<open>t + 1\<close>: if for each dependency \<open>p\<close> of \<open>q\<close> (under the dependence
  set of \<open>t + 1\<close>, inside the row \<open>t\<close>, in the order of the validation loop) the
  corresponding input buffer has at least 16 bytes and holds in every 16-byte slot
  the record \<open>(t, p)\<close>, which is what \<open>execute_point(t, p, ...)\<close> writes
  (\<open>generate_output\<close>, see \<open>execute_point_output\<close>), then the input validation of
  \<open>execute_point(t + 1, q, ...)\<close> returns normally: neither the corruption branch nor
  an input assertion is reached. Hence \<open>execute_point(t + 1, q, ...)\<close> never reports
  corrupted input, and it returns with its output written as soon as the output has
  16 bytes and the scratch and kernel assertions hold.
\<close>

theorem execute_point_round_trip:
  assumes "valid_graph ru g" and "0 \<le> t" and "t < timesteps g - 1"
    and "offset_at_timestep g (t + 1) \<le> q"
    and "q < offset_at_timestep g (t + 1) + width_at_timestep g (t + 1)"
    and "length (required_dependencies g (t + 1) (deps_of ru g (dset_of g (t + 1)) q))
           \<le> length inputs"
    and "\<forall>k < length (required_dependencies g (t + 1) (deps_of ru g (dset_of g (t + 1)) q)).
           16 \<le> input_bytes (inputs ! k)
           \<and> input_ptr (inputs ! k)
               = generate_output t
                   (required_dependencies g (t + 1) (deps_of ru g (dset_of g (t + 1)) q) ! k)
                   (input_bytes (inputs ! k))"
  shows "validate_input ru g (t + 1) q inputs = Inr ()
         \<and> execute_point ru g (t + 1) q output_bytes inputs scratch_ptr scratch_bytes
               \<noteq> Inl CorruptedInput
         \<and> (16 \<le> output_bytes \<and> validate_scratch g scratch_ptr scratch_bytes = Inr ()
              \<and> Kernel_execute (kernel g) (t + 1) q scratch_ptr scratch_bytes = Inr ()
              \<longrightarrow> execute_point ru g (t + 1) q output_bytes inputs scratch_ptr scratch_bytes
                    = Inr (generate_output (t + 1) q output_bytes))"
proof -
  obtain dset where dset: "dependence_set_at_timestep g (t + 1) = Inr dset"
    using valid_dset [OF assms(1), of "t + 1"] assms(2) by auto
  obtain ds n where ds: "dependencies ru g dset q = Inr ds" "dependencies_vec ru g dset q = Inr ds"
      "num_dependencies g dset q = Inr n" "length ds \<le> n"
    using valid_dependencies_vec [OF assms(1), of dset q] by auto
  have req: "required_dependencies g (t + 1) (deps_of ru g (dset_of g (t + 1)) q)
      = concat (map (\<lambda>sp. filter (\<lambda>d. offset_at_timestep g t \<le> d
                      \<and> d < offset_at_timestep g t + width_at_timestep g t) [fst sp..snd sp]) ds)"
    by (simp add: required_dependencies_def deps_of_def dset_of_def dset ds)
  have "\<exists>n. validate_spans (t + 1) (offset_at_timestep g t) (width_at_timestep g t) inputs ds 0 = Inr n"
  proof (rule validate_spans_ok)
    show "0 + length (concat (map (\<lambda>sp. filter (\<lambda>d. offset_at_timestep g t \<le> d
                      \<and> d < offset_at_timestep g t + width_at_timestep g t) [fst sp..snd sp]) ds))
          \<le> length inputs"
      using assms(6) unfolding req by simp
    show "\<forall>k < length (concat (map (\<lambda>sp. filter (\<lambda>d. offset_at_timestep g t \<le> d
                      \<and> d < offset_at_timestep g t + width_at_timestep g t) [fst sp..snd sp]) ds)).
           16 \<le> input_bytes (inputs ! (0 + k))
           \<and> validate_slots (t + 1)
                 (concat (map (\<lambda>sp. filter (\<lambda>d. offset_at_timestep g t \<le> d
                      \<and> d < offset_at_timestep g t + width_at_timestep g t) [fst sp..snd sp]) ds) ! k)
                 (input_ptr (inputs ! (0 + k)))
                 [0..<input_bytes (inputs ! (0 + k)) div 16] = Inr ()"
      using assms(7) unfolding req by (simp add: validate_slots_generated)
  qed
  then have v: "validate_input ru g (t + 1) q inputs = Inr ()"
    using dset ds by (auto simp: validate_input_def)
  have range: "0 \<le> t + 1 \<and> t + 1 < timesteps g" using assms(2,3) by simp
  have e: "execute_point ru g (t + 1) q output_bytes inputs scratch_ptr scratch_bytes
        = (if \<not> output_bytes \<ge> 16 then Inl AssertionFailed
           else (case validate_scratch g scratch_ptr scratch_bytes of
                   Inl e \<Rightarrow> Inl e
                 | Inr _ \<Rightarrow>
                     (case Kernel_execute (kernel g) (t + 1) q scratch_ptr scratch_bytes of
                        Inl e \<Rightarrow> Inl e
                      | Inr _ \<Rightarrow> Inr (generate_output (t + 1) q output_bytes))))"
    unfolding execute_point_def Let_def using range assms(4,5) v by simp
  have s: "validate_scratch g scratch_ptr scratch_bytes \<noteq> Inl CorruptedInput"
    by (auto simp: validate_scratch_def split: option.splits list.splits)
  have k: "Kernel_execute (kernel g) (t + 1) q scratch_ptr scratch_bytes \<noteq> Inl CorruptedInput"
    by (cases "kernel_type (kernel g)") (auto simp: Kernel_execute_def Let_def)
  have "execute_point ru g (t + 1) q output_bytes inputs scratch_ptr scratch_bytes
          \<noteq> Inl CorruptedInput"
    unfolding e using s k by (auto split: sum.splits)
  moreover have "16 \<le> output_bytes \<and> validate_scratch g scratch_ptr scratch_bytes = Inr ()
              \<and> Kernel_execute (kernel g) (t + 1) q scratch_ptr scratch_bytes = Inr ()
              \<longrightarrow> execute_point ru g (t + 1) q output_bytes inputs scratch_ptr scratch_bytes
                    = Inr (generate_output (t + 1) q output_bytes)"
    unfolding e by simp
  ultimately show ?thesis using v by blast
qed

text \<open>
  Witness: in the default stencil graph the point 1 of timestep 1 needs the points
  0, 1, 2 of timestep 0; the outputs \<open>execute_point\<close> produces there pass its
  validation.
\<close>

theorem execute_point_round_trip_witness:
  "valid_graph ru_zero stencil_graph \<and> (0::int) \<le> 0 \<and> 0 < timesteps stencil_graph - 1
   \<and> offset_at_timestep stencil_graph 1 \<le> 1
   \<and> 1 < offset_at_timestep stencil_graph 1 + width_at_timestep stencil_graph 1
   \<and> required_dependencies stencil_graph 1
         (deps_of ru_zero stencil_graph (dset_of stencil_graph 1) 1) = [0, 1, 2]
   \<and> execute_point ru_zero stencil_graph 0 0 16 [] None 0 = Inr (input_ptr (stencil_inputs ! 0))
   \<and> execute_point ru_zero stencil_graph 0 1 32 [] None 0 = Inr (input_ptr (stencil_inputs ! 1))
   \<and> execute_point ru_zero stencil_graph 0 2 16 [] None 0 = Inr (input_ptr (stencil_inputs ! 2))
   \<and> validate_input ru_zero stencil_graph 1 1 stencil_inputs = Inr ()
   \<and> execute_point ru_zero stencil_graph 1 1 16 stencil_inputs None 0 = Inr [(1, 1)]"
proof -
  have v: "valid_graph ru_zero stencil_graph"
    unfolding valid_graph_def by code_simp
  have t: "0 < timesteps stencil_graph - 1"
    and o: "offset_at_timestep stencil_graph 1 \<le> 1"
    and w: "1 < offset_at_timestep stencil_graph 1 + width_at_timestep stencil_graph 1"
    by (simp_all add: stencil_graph_def default_graph_def offset_at_timestep_def
        width_at_timestep_def)
  have r: "required_dependencies stencil_graph 1
             (deps_of ru_zero stencil_graph (dset_of stencil_graph 1) 1) = [0, 1, 2]"
    by code_simp
  have e: "execute_point ru_zero stencil_graph 0 0 16 [] None 0 = Inr (input_ptr (stencil_inputs ! 0))"
    "execute_point ru_zero stencil_graph 0 1 32 [] None 0 = Inr (input_ptr (stencil_inputs ! 1))"
    "execute_point ru_zero stencil_graph 0 2 16 [] None 0 = Inr (input_ptr (stencil_inputs ! 2))"
    by code_simp+
  have l: "length (required_dependencies stencil_graph (0 + 1)
             (deps_of ru_zero stencil_graph (dset_of stencil_graph (0 + 1)) 1))
           \<le> length stencil_inputs"
    by (simp add: r stencil_inputs_def)
  have h: "\<forall>k < length (required_dependencies stencil_graph (0 + 1)
                         (deps_of ru_zero stencil_graph (dset_of stencil_graph (0 + 1)) 1)).
             16 \<le> input_bytes (stencil_inputs ! k)
             \<and> input_ptr (stencil_inputs ! k)
                 = generate_output 0
                     (required_dependencies stencil_graph (0 + 1)
                        (deps_of ru_zero stencil_graph (dset_of stencil_graph (0 + 1)) 1) ! k)
                     (input_bytes (stencil_inputs ! k))"
    by (auto simp: r less_Suc_eq numeral_3_eq_3 stencil_inputs_def generate_output_def upt_rec)
  have x: "validate_scratch stencil_graph None 0 = Inr ()"
    "Kernel_execute (kernel stencil_graph) (0 + 1) 1 None 0 = Inr ()"
    by (simp_all add: validate_scratch_def Kernel_execute_def stencil_graph_def
        default_graph_def)
  have "validate_input ru_zero stencil_graph (0 + 1) 1 stencil_inputs = Inr ()
        \<and> execute_point ru_zero stencil_graph (0 + 1) 1 16 stencil_inputs None 0
            = Inr (generate_output (0 + 1) 1 16)"
    using execute_point_round_trip [OF v _ _ _ _ l h, of 16 None 0] t o w x by simp
  with v t o w r e show ?thesis by (simp add: generate_output_def)
qed

subsection \<open>The totals of \<open>report_timing\<close>\<close>






















subsection \<open>The size tables after \<open>App::App\<close>\<close>

lemma fill_cells_other_row:
  "t' \<noteq> t \<Longrightarrow> fill_cells t off v cells tab t' = tab t'"
  by (induction cells arbitrary: tab) (simp_all add: write_cell_def)

lemma fill_cells_row:
  "fill_cells t off v cells tab t p
     = (if p \<in> (\<lambda>i. i + off) ` set cells then Some v else tab t p)"
  by (induction cells arbitrary: tab) (auto simp: write_cell_def)

lemma fill_rows_cell:
  assumes "distinct ts"
  shows "fill_rows g ts tab t p
     = (if t \<in> set ts \<and> offset_at_timestep g t \<le> p
           \<and> p < offset_at_timestep g t + width_at_timestep g t
        then Some 16 else tab t p)"
  using assms
proof (induction ts arbitrary: tab)
  case Nil
  then show ?case by simp
next
  case (Cons a ts)
  have img: "p \<in> (\<lambda>i. i + offset_at_timestep g a) ` set [0..width_at_timestep g a - 1]
        \<longleftrightarrow> offset_at_timestep g a \<le> p \<and> p < offset_at_timestep g a + width_at_timestep g a"
    by (auto simp: image_iff intro: bexI [of _ "p - offset_at_timestep g a"])
  show ?case
  proof (cases "t = a")
    case True
    then have "t \<notin> set ts" using Cons.prems by simp
    then show ?thesis
      using Cons.IH [of "fill_cells a (offset_at_timestep g a) 16 [0..width_at_timestep g a - 1] tab"]
        Cons.prems True img
      by (simp add: fill_cells_row)
  next
    case False
    then show ?thesis
      using Cons.IH [of "fill_cells a (offset_at_timestep g a) 16 [0..width_at_timestep g a - 1] tab"]
        Cons.prems
      by (simp add: fill_cells_other_row)
  qed
qed

lemma plan_rows_cell:
  assumes "distinct ts" and "output_case g = 0"
  shows "plan_rows hist g ts tab t p
     = (if t \<in> set ts \<and> offset_at_timestep g t \<le> p
           \<and> p < offset_at_timestep g t + width_at_timestep g t
        then Some (output_bytes_per_task g) else tab t p)"
  using assms(1)
proof (induction ts arbitrary: tab)
  case Nil
  then show ?case by simp
next
  case (Cons a ts)
  have row: "plan_row hist g a tab
      = fill_cells a (offset_at_timestep g a) (output_bytes_per_task g) [0..width_at_timestep g a - 1] tab"
    using assms(2) by (simp add: plan_row_def Let_def)
  have img: "p \<in> (\<lambda>i. i + offset_at_timestep g a) ` set [0..width_at_timestep g a - 1]
        \<longleftrightarrow> offset_at_timestep g a \<le> p \<and> p < offset_at_timestep g a + width_at_timestep g a"
    by (auto simp: image_iff intro: bexI [of _ "p - offset_at_timestep g a"])
  show ?case
  proof (cases "t = a")
    case True
    then have "t \<notin> set ts" using Cons.prems by simp
    then show ?thesis
      using Cons.IH [of "plan_row hist g a tab"] Cons.prems True img
      by (simp add: row fill_cells_row)
  next
    case False
    then show ?thesis
      using Cons.IH [of "plan_row hist g a tab"] Cons.prems
      by (simp add: row fill_cells_other_row)
  qed
qed

lemma allocate_bytes_uniform:
  assumes "output_bytes_size g = Some (\<lambda>t i. None)"
    and "output_bytes_per_task g = 16 \<or> output_case g = 0"
  shows "\<exists>tab. allocate_bytes hist g = Inr (g\<lparr>output_bytes_size := Some tab\<rparr>)
           \<and> (\<forall>t p. tab t p
                  = (if 0 \<le> t \<and> t < timesteps g \<and> offset_at_timestep g t \<le> p
                        \<and> p < offset_at_timestep g t + width_at_timestep g t
                     then Some (output_bytes_per_task g) else None))"
proof (cases "output_bytes_per_task g = 16")
  case True
  then show ?thesis
    using assms(1) by (auto simp: allocate_bytes_def fill_rows_cell)
next
  case False
  with assms(2) have "output_case g = 0" by simp
  then show ?thesis
    using assms(1) False by (auto simp: allocate_bytes_def plan_rows_cell)
qed

text \<open>
  C9 (the code at the failing input). On the command line
  \<open>task_bench -width 2 -and -width 3\<close> the constructor returns an application with two
  graphs; the first, pushed by \<open>-and\<close>, has no size table at all, the second has its
  table allocated and its cell \<open>(0, 0)\<close> holds 16.
\<close>

theorem and_graph_without_size_table:
  "\<exists>a. App_create ru atof hist two_graphs_argv = Inr a \<and> length (graphs a) = 2
     \<and> max_width (graphs a ! 0) = 2 \<and> output_bytes_size (graphs a ! 0) = None
     \<and> max_width (graphs a ! 1) = 3
     \<and> (\<exists>tab. output_bytes_size (graphs a ! 1) = Some tab \<and> tab 0 0 = Some 16)"
proof -
  have "case App_create ru atof hist two_graphs_argv of
          Inl e \<Rightarrow> False
        | Inr a \<Rightarrow>
            length (graphs a) = 2 \<and> max_width (graphs a ! 0) = 2
            \<and> (case output_bytes_size (graphs a ! 0) of None \<Rightarrow> True | Some tab \<Rightarrow> False)
            \<and> max_width (graphs a ! 1) = 3
            \<and> (case output_bytes_size (graphs a ! 1) of
                  None \<Rightarrow> False
                | Some tab \<Rightarrow> (case tab 0 0 of None \<Rightarrow> False | Some v \<Rightarrow> v = 16))"
    by code_simp
  then show ?thesis
    by (auto split: sum.splits option.splits)
qed

end
